theory Spec2Isabelle
  imports Complex_Main "HOL-Library.Word"
begin

section \<open>Sample values and the work type\<close>

text \<open>
  The filter stage of \<^verbatim>\<open>DarkFilterThresholdingCuda.cu\<close> is instantiated for the sample
  types \<^verbatim>\<open>uint8_t\<close>, \<^verbatim>\<open>int16_t\<close> and \<^verbatim>\<open>float\<close>, on the input and on the output side.
  A single-precision value is carried as the number it denotes: a finite value as a
  rational, the negative zero, the two infinities and NaN apart. The kernel applies
  \<^verbatim>\<open>abs\<close>, \<^verbatim>\<open>>=\<close> and conversions to such values, none of which rounds, so the finite
  values need not be restricted to the representable ones: every statement below that holds
  for all rationals holds for the representable ones. A buffer of a sample type is a list of
  samples; each sample is converted as its own type is, so the lists of one type that the
  code has are among the lists here.
\<close>

datatype float32 = Fin rat | NegZero | PInf | NInf | NaN

text \<open>
  Modelled from the spec: the header \<^verbatim>\<open>DarkFilterThresholdingCuda.h\<close> that declares
  \<^verbatim>\<open>WorkType\<close> is missing; the spec describes it as a single fixed wide floating-point type
  that holds every supported sample without loss.
\<close>

type_synonym WorkType = float32

datatype sample_type = UInt8 | Int16 | Float32

datatype sample = U8 "8 word" | I16 "16 word" | F32 float32

fun sizeof :: "sample_type \<Rightarrow> nat" where
  "sizeof UInt8 = 1"
| "sizeof Int16 = 2"
| "sizeof Float32 = 4"

text \<open>The conversion of \<^verbatim>\<open>WorkType inPixel = inputBuffer[{x, y, z}]\<close>.\<close>

fun to_WorkType :: "sample \<Rightarrow> WorkType" where
  "to_WorkType (U8 w) = Fin (of_nat (unat w))"
| "to_WorkType (I16 w) = Fin (of_int (sint w))"
| "to_WorkType (F32 f) = f"

text \<open>\<^verbatim>\<open>abs\<close> on the work type.\<close>

fun abs_WorkType :: "WorkType \<Rightarrow> WorkType" where
  "abs_WorkType (Fin q) = Fin \<bar>q\<bar>"
| "abs_WorkType NegZero = Fin 0"
| "abs_WorkType PInf = PInf"
| "abs_WorkType NInf = PInf"
| "abs_WorkType NaN = NaN"

text \<open>
  The comparisons of the work type. A value other than NaN has a place in the order:
  minus infinity, the finite values (both zeros at 0), plus infinity. A comparison with NaN
  on either side is false.
\<close>

fun place :: "WorkType \<Rightarrow> (int \<times> rat) option" where
  "place (Fin q) = Some (0, q)"
| "place NegZero = Some (0, 0)"
| "place PInf = Some (1, 0)"
| "place NInf = Some (- 1, 0)"
| "place NaN = None"

definition ge_WorkType :: "WorkType \<Rightarrow> WorkType \<Rightarrow> bool" where
  "ge_WorkType a b =
     (case place a of None \<Rightarrow> False
      | Some (i, q) \<Rightarrow>
          (case place b of None \<Rightarrow> False
           | Some (j, r) \<Rightarrow> j < i \<or> (j = i \<and> r \<le> q)))"

definition lt_WorkType :: "WorkType \<Rightarrow> WorkType \<Rightarrow> bool" where
  "lt_WorkType a b =
     (case place a of None \<Rightarrow> False
      | Some (i, q) \<Rightarrow>
          (case place b of None \<Rightarrow> False
           | Some (j, r) \<Rightarrow> i < j \<or> (i = j \<and> q < r)))"

definition eq_WorkType :: "WorkType \<Rightarrow> WorkType \<Rightarrow> bool" where
  "eq_WorkType a b =
     (case place a of None \<Rightarrow> False
      | Some (i, q) \<Rightarrow>
          (case place b of None \<Rightarrow> False
           | Some (j, r) \<Rightarrow> i = j \<and> q = r))"

definition is_NaN :: "WorkType \<Rightarrow> bool" where
  "is_NaN a = (place a = None)"

subsection \<open>The saturating cast\<close>

text \<open>
  Modelled from the spec: the helper \<^verbatim>\<open>clampCast\<close> and the limits of the sample types
  (\<^verbatim>\<open>utilities/utility.h\<close>) are missing. The spec: a pure function mapping a Work Type value
  to an output sample type, clamping to the representable range of the output type rather
  than wrapping or producing undefined results on overflow. The value in range is converted
  as \<^verbatim>\<open>static_cast\<close> converts it: to an integer type by dropping the fraction. The spec
  gives no result for NaN, which has no place in the range: there the model has no value.
\<close>

definition FLT_MAX :: rat where
  "FLT_MAX = 340282346638528859811704183484516925440"

fun limit_min :: "sample_type \<Rightarrow> rat" where
  "limit_min UInt8 = 0"
| "limit_min Int16 = - 32768"
| "limit_min Float32 = - FLT_MAX"

fun limit_max :: "sample_type \<Rightarrow> rat" where
  "limit_max UInt8 = 255"
| "limit_max Int16 = 32767"
| "limit_max Float32 = FLT_MAX"

definition trunc_toward_zero :: "rat \<Rightarrow> int" where
  "trunc_toward_zero q = (if q < 0 then - \<lfloor>- q\<rfloor> else \<lfloor>q\<rfloor>)"

fun static_cast :: "sample_type \<Rightarrow> rat \<Rightarrow> sample" where
  "static_cast UInt8 q = U8 (word_of_int (trunc_toward_zero q))"
| "static_cast Int16 q = I16 (word_of_int (trunc_toward_zero q))"
| "static_cast Float32 q = F32 (Fin q)"

definition clamp :: "sample_type \<Rightarrow> rat \<Rightarrow> rat" where
  "clamp T q = min (max q (limit_min T)) (limit_max T)"

fun clampCast :: "sample_type \<Rightarrow> WorkType \<Rightarrow> sample option" where
  "clampCast T (Fin q) = Some (static_cast T (clamp T q))"
| "clampCast T NegZero = Some (case T of Float32 \<Rightarrow> F32 NegZero | _ \<Rightarrow> static_cast T 0)"
| "clampCast T PInf = Some (static_cast T (limit_max T))"
| "clampCast T NInf = Some (static_cast T (limit_min T))"
| "clampCast T NaN = None"

text \<open>The zero and the largest value of a sample type.\<close>

fun zero_sample :: "sample_type \<Rightarrow> sample" where
  "zero_sample UInt8 = U8 0"
| "zero_sample Int16 = I16 0"
| "zero_sample Float32 = F32 (Fin 0)"

fun max_sample :: "sample_type \<Rightarrow> sample" where
  "max_sample UInt8 = U8 255"
| "max_sample Int16 = I16 32767"
| "max_sample Float32 = F32 (Fin FLT_MAX)"

section \<open>Buffers and accessors\<close>

text \<open>
  Device memory is a list of cells. A cell that was never written holds no sample; an
  access outside the list, and the use of the value of a cell that holds none, are faults:
  the operation has no result.
\<close>

type_synonym cell = "sample option"

type_synonym buffer = "cell list"

definition buffer_read :: "buffer \<Rightarrow> nat \<Rightarrow> cell option" where
  "buffer_read b i = (if i < length b then Some (b ! i) else None)"

definition buffer_write :: "buffer \<Rightarrow> nat \<Rightarrow> cell \<Rightarrow> buffer option" where
  "buffer_write b i c = (if i < length b then Some (b[i := c]) else None)"

text \<open>
  Modelled from the spec: the declaration of \<^verbatim>\<open>vec3s\<close> is missing. The spec: the volume
  geometry is a triple of unsigned extents (width, height, depth); the code reads its
  components \<^verbatim>\<open>x\<close>, \<^verbatim>\<open>y\<close>, \<^verbatim>\<open>z\<close> into \<^verbatim>\<open>size_t\<close>. The \<^verbatim>\<open>dim3\<close> of a launch and the
  built-in \<^verbatim>\<open>blockDim\<close>, \<^verbatim>\<open>blockIdx\<close> and \<^verbatim>\<open>threadIdx\<close> are triples of \<^verbatim>\<open>unsigned int\<close>.
  Numbers are naturals, and an arithmetic result of the code is reduced to the width of its
  type: 32 bits for \<^verbatim>\<open>unsigned int\<close>, 64 bits for \<^verbatim>\<open>size_t\<close>.
\<close>

record vec3s =
  vx :: nat
  vy :: nat
  vz :: nat

record dim3 =
  dx :: nat
  dy :: nat
  dz :: nat

definition wrap32 :: "nat \<Rightarrow> nat" where
  "wrap32 n = n mod 2 ^ 32"

definition wrap64 :: "nat \<Rightarrow> nat" where
  "wrap64 n = n mod 2 ^ 64"

definition inside :: "vec3s \<Rightarrow> vec3s \<Rightarrow> bool" where
  "inside sz p = (vx p < vx sz \<and> vy p < vy sz \<and> vz p < vz sz)"

text \<open>
  Modelled from the spec: \<^verbatim>\<open>Buffer3\<close> (\<^verbatim>\<open>utilities/Buffer.h\<close>) is missing. The spec: the
  direct accessor computes the linear offset \<^verbatim>\<open>x + y*width + z*width*height\<close> and returns
  a reference to that element.
\<close>

definition Buffer3_index :: "vec3s \<Rightarrow> vec3s \<Rightarrow> nat" where
  "Buffer3_index sz p = wrap64 (vx p + vy p * vx sz + vz p * vx sz * vy sz)"

definition Buffer3_set :: "buffer \<Rightarrow> vec3s \<Rightarrow> vec3s \<Rightarrow> sample \<Rightarrow> buffer option" where
  "Buffer3_set b sz p v = buffer_write b (Buffer3_index sz p) (Some v)"

text \<open>Running a list of steps in order; a fault of one step is the fault of the run.\<close>

fun run_all :: "('t \<Rightarrow> 's \<Rightarrow> 's option) \<Rightarrow> 't list \<Rightarrow> 's \<Rightarrow> 's option" where
  "run_all f [] s = Some s"
| "run_all f (t # ts) s = (case f t s of None \<Rightarrow> None | Some s' \<Rightarrow> run_all f ts s')"

text \<open>
  Modelled from the spec: \<^verbatim>\<open>CachedBuffer3\<close> (\<^verbatim>\<open>utilities/Buffer.h\<close>) is missing. The spec:
  the cached accessor first cooperatively copies the tile's footprint from the backing
  buffer into a scratch buffer sized exactly to the tile, clipped to the intersection of
  tile footprint and volume extent, and after a barrier serves the reads of coordinates
  inside the tile from scratch rather than from backing storage.
\<close>

record CachedBuffer3 =
  m_buffer :: buffer
  m_size :: vec3s
  m_sharedBuffer :: buffer
  m_sharedSize :: vec3s
  m_sharedOffset :: vec3s

definition tile_position :: "vec3s \<Rightarrow> nat \<Rightarrow> vec3s" where
  "tile_position ext j =
     \<lparr>vx = j mod vx ext, vy = (j div vx ext) mod vy ext, vz = j div (vx ext * vy ext)\<rparr>"

definition tile_index :: "vec3s \<Rightarrow> vec3s \<Rightarrow> nat" where
  "tile_index ext l = vx l + vy l * vx ext + vz l * vx ext * vy ext"

definition offset_by :: "vec3s \<Rightarrow> vec3s \<Rightarrow> vec3s" where
  "offset_by off l = \<lparr>vx = vx off + vx l, vy = vy off + vy l, vz = vz off + vz l\<rparr>"

definition copy_cell :: "buffer \<Rightarrow> vec3s \<Rightarrow> vec3s \<Rightarrow> vec3s \<Rightarrow> nat \<Rightarrow> buffer \<Rightarrow> buffer option" where
  "copy_cell backing sz ext off j shared =
     (let p = offset_by off (tile_position ext j)
      in if inside sz p then
           (case buffer_read backing (Buffer3_index sz p) of
              None \<Rightarrow> None
            | Some c \<Rightarrow> buffer_write shared j c)
         else Some shared)"

definition CachedBuffer3_new ::
    "buffer \<Rightarrow> vec3s \<Rightarrow> buffer \<Rightarrow> vec3s \<Rightarrow> vec3s \<Rightarrow> CachedBuffer3 option" where
  "CachedBuffer3_new backing sz shared ext off =
     (case run_all (copy_cell backing sz ext off) [0 ..< vx ext * vy ext * vz ext] shared of
        None \<Rightarrow> None
      | Some shared' \<Rightarrow>
          Some \<lparr>m_buffer = backing, m_size = sz, m_sharedBuffer = shared',
                m_sharedSize = ext, m_sharedOffset = off\<rparr>)"

definition in_tile :: "CachedBuffer3 \<Rightarrow> vec3s \<Rightarrow> bool" where
  "in_tile cb p =
     (vx (m_sharedOffset cb) \<le> vx p \<and> vx p < vx (m_sharedOffset cb) + vx (m_sharedSize cb) \<and>
      vy (m_sharedOffset cb) \<le> vy p \<and> vy p < vy (m_sharedOffset cb) + vy (m_sharedSize cb) \<and>
      vz (m_sharedOffset cb) \<le> vz p \<and> vz p < vz (m_sharedOffset cb) + vz (m_sharedSize cb))"

definition CachedBuffer3_get :: "CachedBuffer3 \<Rightarrow> vec3s \<Rightarrow> cell option" where
  "CachedBuffer3_get cb p =
     (if in_tile cb p then
        buffer_read (m_sharedBuffer cb)
          (tile_index (m_sharedSize cb)
             \<lparr>vx = vx p - vx (m_sharedOffset cb), vy = vy p - vy (m_sharedOffset cb),
              vz = vz p - vz (m_sharedOffset cb)\<rparr>)
      else buffer_read (m_buffer cb) (Buffer3_index (m_size cb) p))"

section \<open>The thresholding kernel\<close>

text \<open>
  The thresholding of the widened sample (lines 54 to 61 of the kernel): the sample if its
  magnitude is at least the threshold, zero otherwise.
\<close>

definition threshold_value :: "WorkType \<Rightarrow> WorkType \<Rightarrow> WorkType" where
  "threshold_value threshold inPixel =
     (if ge_WorkType (abs_WorkType inPixel) threshold then inPixel else Fin 0)"

text \<open>The global coordinates of a thread, computed in \<^verbatim>\<open>unsigned int\<close>.\<close>

definition thread_position :: "dim3 \<Rightarrow> dim3 \<Rightarrow> dim3 \<Rightarrow> vec3s" where
  "thread_position blockDim blockIdx threadIdx =
     \<lparr>vx = wrap32 (dx blockDim * dx blockIdx + dx threadIdx),
      vy = wrap32 (dy blockDim * dy blockIdx + dy threadIdx),
      vz = wrap32 (dz blockDim * dz blockIdx + dz threadIdx)\<rparr>"

text \<open>
  The accessor that the threads of one block build over the input (lines 35 to 38): its
  scratch is the block's shared memory, its tile the block.
\<close>

definition tile_extent :: "dim3 \<Rightarrow> vec3s" where
  "tile_extent blockDim = \<lparr>vx = dx blockDim, vy = dy blockDim, vz = dz blockDim\<rparr>"

definition tile_origin :: "dim3 \<Rightarrow> dim3 \<Rightarrow> vec3s" where
  "tile_origin blockDim blockIdx =
     \<lparr>vx = wrap32 (dx blockDim * dx blockIdx), vy = wrap32 (dy blockDim * dy blockIdx),
      vz = wrap32 (dz blockDim * dz blockIdx)\<rparr>"

definition inputBuffer_of :: "buffer \<Rightarrow> vec3s \<Rightarrow> buffer \<Rightarrow> dim3 \<Rightarrow> dim3 \<Rightarrow> CachedBuffer3 option" where
  "inputBuffer_of inputImage sz smem blockDim blockIdx =
     CachedBuffer3_new inputImage sz smem (tile_extent blockDim) (tile_origin blockDim blockIdx)"

text \<open>
  One thread of \<^verbatim>\<open>processKernel\<close> after the barrier of the accessor: the bounds check
  and the work on its voxel. The result is the output image after the thread.
\<close>

definition processKernel ::
    "sample_type \<Rightarrow> dim3 \<Rightarrow> dim3 \<Rightarrow> dim3 \<Rightarrow> CachedBuffer3 \<Rightarrow> vec3s \<Rightarrow> WorkType \<Rightarrow> buffer \<Rightarrow> buffer option" where
  "processKernel OutputType blockDim blockIdx threadIdx inputBuffer sz threshold outputImage =
     (let p = thread_position blockDim blockIdx threadIdx;
          width = vx sz; height = vy sz; depth = vz sz
      in if vx p < width \<and> vy p < height \<and> vz p < depth then
           (case CachedBuffer3_get inputBuffer p of
              None \<Rightarrow> None
            | Some None \<Rightarrow> None
            | Some (Some s) \<Rightarrow>
                (let inPixel = to_WorkType s;
                     val = (if ge_WorkType (abs_WorkType inPixel) threshold then inPixel else Fin 0)
                 in case clampCast OutputType val of
                      None \<Rightarrow> None
                    | Some v \<Rightarrow> Buffer3_set outputImage sz p v))
         else Some outputImage)"

text \<open>The threads of a block and the blocks of a grid, in the order they are run here.\<close>

definition indices :: "dim3 \<Rightarrow> dim3 list" where
  "indices d =
     concat (map (\<lambda>k. concat (map (\<lambda>j. map (\<lambda>i. \<lparr>dx = i, dy = j, dz = k\<rparr>) [0 ..< dx d])
                                  [0 ..< dy d]))
                 [0 ..< dz d])"

text \<open>
  One block: the shared memory of the launch (so many cells as the bytes hold samples of the
  input type), the cooperative copy, the barrier, then every thread.
\<close>

definition run_block ::
    "sample_type \<Rightarrow> sample_type \<Rightarrow> dim3 \<Rightarrow> nat \<Rightarrow> buffer \<Rightarrow> vec3s \<Rightarrow> WorkType \<Rightarrow> dim3 \<Rightarrow> buffer \<Rightarrow> buffer option" where
  "run_block InputType OutputType blockDim sharedMemorySize inputImage sz threshold blockIdx outputImage =
     (case inputBuffer_of inputImage sz
             (replicate (sharedMemorySize div sizeof InputType) None) blockDim blockIdx of
        None \<Rightarrow> None
      | Some inputBuffer \<Rightarrow>
          run_all (\<lambda>threadIdx. processKernel OutputType blockDim blockIdx threadIdx inputBuffer sz threshold)
            (indices blockDim) outputImage)"

text \<open>
  The launch \<^verbatim>\<open>processKernel<<<gridSize, blockSize, sharedMemorySize, stream>>>\<close>, once the
  stream has drained: every block of the grid is run, and in it every thread. What a thread
  writes to a cell depends on the input at that cell alone, so the order of the run is not
  seen in the result. The limits that a device puts on a grid are no part of the code and
  none of the model.
\<close>

definition launch ::
    "sample_type \<Rightarrow> sample_type \<Rightarrow> dim3 \<Rightarrow> dim3 \<Rightarrow> nat \<Rightarrow> buffer \<Rightarrow> vec3s \<Rightarrow> WorkType \<Rightarrow> buffer \<Rightarrow> buffer option" where
  "launch InputType OutputType gridSize blockSize sharedMemorySize inputImage sz threshold outputImage =
     run_all (run_block InputType OutputType blockSize sharedMemorySize inputImage sz threshold)
       (indices gridSize) outputImage"

section \<open>Containers and the stage driver\<close>

text \<open>
  Modelled from the spec: the class \<^verbatim>\<open>Container\<close> is missing. The spec: a typed memory
  container has a residency tag (host-only, accelerator-only, or both), an associated
  execution queue and its elements; allocation creates uninitialized storage of the
  requested residency bound to the given queue; migration creates a new container with the
  same logical content placed in the target residency, on the queue of its source.
\<close>

datatype ContainerLocation = LocationHost | LocationGpu | LocationBoth

record Container =
  location :: ContainerLocation
  stream :: nat
  elements :: buffer

definition isGPU :: "Container \<Rightarrow> bool" where
  "isGPU c = (location c = LocationGpu)"

definition isBoth :: "Container \<Rightarrow> bool" where
  "isBoth c = (location c = LocationBoth)"

definition getStream :: "Container \<Rightarrow> nat" where
  "getStream c = stream c"

definition Container_new :: "ContainerLocation \<Rightarrow> nat \<Rightarrow> nat \<Rightarrow> Container" where
  "Container_new loc strm numel = \<lparr>location = loc, stream = strm, elements = replicate numel None\<rparr>"

definition Container_copy :: "ContainerLocation \<Rightarrow> Container \<Rightarrow> Container" where
  "Container_copy loc source = \<lparr>location = loc, stream = getStream source, elements = elements source\<rparr>"

text \<open>
  The containers live in a store; a \<^verbatim>\<open>shared_ptr\<close> is the position of its container.
  \<^verbatim>\<open>make_shared\<close> puts a new container behind the others.
\<close>

type_synonym memory = "Container list"

definition make_shared :: "memory \<Rightarrow> Container \<Rightarrow> nat \<times> memory" where
  "make_shared mem c = (length mem, mem @ [c])"

text \<open>Lines 83 to 87 of \<^verbatim>\<open>process\<close>: the input is copied to the accelerator if it is on the host only.\<close>

definition inImageData_of :: "memory \<Rightarrow> nat \<Rightarrow> nat \<times> memory" where
  "inImageData_of mem imageData =
     (let inImageData = imageData
      in if \<not> isGPU (mem ! inImageData) \<and> \<not> isBoth (mem ! inImageData)
         then make_shared mem (Container_copy LocationGpu (mem ! inImageData))
         else (inImageData, mem))"

text \<open>Lines 93 to 98: the launch geometry.\<close>

definition blockSize :: dim3 where
  "blockSize = \<lparr>dx = 32, dy = 4, dz = 1\<rparr>"

definition gridSize :: "vec3s \<Rightarrow> dim3" where
  "gridSize sz =
     \<lparr>dx = wrap32 (wrap64 (vx sz + dx blockSize - 1) div dx blockSize),
      dy = wrap32 (wrap64 (vy sz + dy blockSize - 1) div dy blockSize),
      dz = wrap32 (wrap64 (vz sz + dz blockSize - 1) div dz blockSize)\<rparr>"

definition sharedMemorySize :: "sample_type \<Rightarrow> nat" where
  "sharedMemorySize InputType =
     wrap64 (wrap32 (wrap32 (dx blockSize * dy blockSize) * dz blockSize) * sizeof InputType)"

text \<open>Lines 99 to 103: the kernel call of \<^verbatim>\<open>process\<close>.\<close>

definition kernel_call ::
    "sample_type \<Rightarrow> sample_type \<Rightarrow> buffer \<Rightarrow> vec3s \<Rightarrow> WorkType \<Rightarrow> buffer \<Rightarrow> buffer option" where
  "kernel_call InputType OutputType inputImage sz threshold outputImage =
     launch InputType OutputType (gridSize sz) blockSize (sharedMemorySize InputType)
       inputImage sz threshold outputImage"

text \<open>
  \<^verbatim>\<open>process\<close>. The conversion \<^verbatim>\<open>static_cast<WorkType>(threshold)\<close> of the caller's double
  is the parameter \<open>narrow\<close>. A pointer that is not in the store and a fault of the kernel
  leave no result. The result is the output pointer and the store once the stream has
  drained. The check of the launch error (line 105) reports an error of the runtime and
  changes nothing here.
\<close>

definition process ::
    "('d \<Rightarrow> WorkType) \<Rightarrow> sample_type \<Rightarrow> sample_type \<Rightarrow> memory \<Rightarrow> nat \<Rightarrow> vec3s \<Rightarrow> 'd \<Rightarrow> (nat \<times> memory) option" where
  "process narrow InputType OutputType mem imageData sz threshold =
     (if imageData < length mem then
        (let width = vx sz; height = vy sz; depth = vz sz;
             (inImageData, mem1) = inImageData_of mem imageData;
             (outImageData, mem2) =
                make_shared mem1
                  (Container_new LocationGpu (getStream (mem1 ! inImageData))
                     (wrap64 (width * height * depth)))
         in case kernel_call InputType OutputType (elements (mem2 ! inImageData)) sz
                   (narrow threshold) (elements (mem2 ! outImageData)) of
              None \<Rightarrow> None
            | Some written \<Rightarrow>
                Some (outImageData, mem2[outImageData := (mem2 ! outImageData)\<lparr>elements := written\<rparr>]))
      else None)"

text \<open>
  What the filter makes of one cell, and the volumes that \<^verbatim>\<open>process\<close> is meant for: the
  input holds a sample for every voxel, and the extents are such that the 32-bit thread
  coordinates and the 64-bit offsets do not wrap around.
\<close>

definition filtered :: "sample_type \<Rightarrow> WorkType \<Rightarrow> cell \<Rightarrow> cell" where
  "filtered OutputType threshold c =
     (case c of None \<Rightarrow> None
      | Some s \<Rightarrow> clampCast OutputType (threshold_value threshold (to_WorkType s)))"

definition volume_ok :: "vec3s \<Rightarrow> buffer \<Rightarrow> bool" where
  "volume_ok sz inputImage =
     (length inputImage = vx sz * vy sz * vz sz \<and> None \<notin> set inputImage \<and>
      vx sz + 31 < 2 ^ 32 \<and> vy sz + 3 < 2 ^ 32 \<and> vz sz < 2 ^ 32 \<and>
      vx sz * vy sz * vz sz < 2 ^ 64)"

text \<open>The element-wise saturating cast of a cell, with no thresholding.\<close>

definition cast_cell :: "sample_type \<Rightarrow> cell \<Rightarrow> cell" where
  "cast_cell OutputType c =
     (case c of None \<Rightarrow> None | Some s \<Rightarrow> clampCast OutputType (to_WorkType s))"

text \<open>The cell of the output that a thread writes, if any.\<close>

definition writes :: "vec3s \<Rightarrow> dim3 \<Rightarrow> dim3 \<Rightarrow> dim3 \<Rightarrow> nat set" where
  "writes sz blockDim blockIdx threadIdx =
     (if inside sz (thread_position blockDim blockIdx threadIdx)
      then {Buffer3_index sz (thread_position blockDim blockIdx threadIdx)} else {})"

text \<open>
  Two stores for the examples: the volume of the spec's scenario, 2 by 1 by 1 with the
  16-bit samples 50 and -5, once on the host and once on the accelerator.
\<close>

definition host_volume :: memory where
  "host_volume = [\<lparr>location = LocationHost, stream = 7, elements = [Some (I16 50), Some (I16 (- 5))]\<rparr>]"

definition device_volume :: memory where
  "device_volume = [\<lparr>location = LocationGpu, stream = 3, elements = [Some (I16 50), Some (I16 (- 5))]\<rparr>]"

section \<open>Index arithmetic and runs of steps\<close>

lemma run_all_pointwise:
  assumes step: "\<And>t s. t \<in> set ts \<Longrightarrow> length s = n \<Longrightarrow>
            \<exists>s'. f t s = Some s' \<and> length s' = n \<and> (\<forall>i<n. s' ! i = (if i \<in> T t then G i else s ! i))"
      and len: "length s = n"
  shows "\<exists>s'. run_all f ts s = Some s' \<and> length s' = n \<and>
           (\<forall>i<n. s' ! i = (if i \<in> (\<Union>t\<in>set ts. T t) then G i else s ! i))"
  using step len
proof (induction ts arbitrary: s)
  case Nil
  then show ?case by simp
next
  case (Cons t ts)
  from Cons.prems(1) [of t s] Cons.prems(2)
  obtain s1 where s1: "f t s = Some s1" "length s1 = n"
      "\<forall>i<n. s1 ! i = (if i \<in> T t then G i else s ! i)"
    by auto
  have "\<exists>s'. run_all f ts s1 = Some s' \<and> length s' = n \<and>
           (\<forall>i<n. s' ! i = (if i \<in> (\<Union>t\<in>set ts. T t) then G i else s1 ! i))"
    by (rule Cons.IH) (use Cons.prems(1) s1(2) in auto)
  then obtain s2 where s2: "run_all f ts s1 = Some s2" "length s2 = n"
      "\<forall>i<n. s2 ! i = (if i \<in> (\<Union>t\<in>set ts. T t) then G i else s1 ! i)"
    by blast
  have "\<forall>i<n. s2 ! i = (if i \<in> (\<Union>t\<in>set (t # ts). T t) then G i else s ! i)"
    using s1(3) s2(3) by auto
  with s1(1) s2(1) s2(2) show ?case by simp
qed

lemma tile_position_index:
  assumes "vx l < vx ext" and "vy l < vy ext"
  shows "tile_position ext (tile_index ext l) = (l :: vec3s)"
proof -
  have a: "tile_index ext l = vx l + vx ext * (vy l + vy ext * vz l)"
    by (simp add: tile_index_def algebra_simps)
  have 1: "tile_index ext l mod vx ext = vx l"
    using assms by (simp add: a)
  have 2: "tile_index ext l div vx ext = vy l + vy ext * vz l"
    using assms by (simp add: a)
  have 3: "(vy l + vy ext * vz l) mod vy ext = vy l"
    using assms by simp
  have "tile_index ext l div (vx ext * vy ext) = tile_index ext l div vx ext div vy ext"
    by (rule div_mult2_eq)
  also have "\<dots> = vz l"
    using assms by (simp add: 2)
  finally have 4: "tile_index ext l div (vx ext * vy ext) = vz l" .
  show ?thesis
    using assms by (simp add: tile_position_def 1 2 4)
qed

lemma index_less:
  fixes a b c w h d :: nat
  assumes "a < w" and "b < h" and "c < d"
  shows "a + b * w + c * w * h < w * h * d"
proof -
  have "a + b * w < w * h"
  proof -
    have "a + b * w < w + b * w" using assms by simp
    also have "\<dots> = w * Suc b" by simp
    also have "\<dots> \<le> w * h" using assms by (intro mult_le_mono2) simp
    finally show ?thesis .
  qed
  then have "a + b * w + c * w * h < w * h + c * (w * h)" by (simp add: algebra_simps)
  also have "\<dots> = (w * h) * Suc c" by simp
  also have "\<dots> \<le> (w * h) * d" using assms by (intro mult_le_mono2) simp
  finally show ?thesis .
qed

lemma tile_index_less:
  "vx l < vx ext \<Longrightarrow> vy l < vy ext \<Longrightarrow> vz l < vz ext \<Longrightarrow>
     tile_index ext l < vx ext * vy ext * vz ext"
  unfolding tile_index_def by (rule index_less)

lemma Buffer3_index_less:
  assumes "inside sz p"
  shows "Buffer3_index sz p < vx sz * vy sz * vz sz"
proof -
  have "vx p + vy p * vx sz + vz p * vx sz * vy sz < vx sz * vy sz * vz sz"
    using assms unfolding inside_def by (intro index_less) auto
  moreover have "Buffer3_index sz p \<le> vx p + vy p * vx sz + vz p * vx sz * vy sz"
    by (simp add: Buffer3_index_def wrap64_def)
  ultimately show ?thesis by simp
qed

section \<open>The cached accessor\<close>

lemma copy_cell_pointwise:
  assumes "length backing = vx sz * vy sz * vz sz" and "j < n" and "length s = n"
  shows "\<exists>s'. copy_cell backing sz ext off j s = Some s' \<and> length s' = n \<and>
           (\<forall>i<n. s' ! i =
              (if i \<in> (if inside sz (offset_by off (tile_position ext j)) then {j} else {})
               then backing ! Buffer3_index sz (offset_by off (tile_position ext i))
               else s ! i))"
proof (cases "inside sz (offset_by off (tile_position ext j))")
  case True
  then have "Buffer3_index sz (offset_by off (tile_position ext j)) < length backing"
    using assms(1) Buffer3_index_less by simp
  with True assms(2,3) show ?thesis
    by (simp add: copy_cell_def buffer_read_def buffer_write_def nth_list_update)
next
  case False
  with assms show ?thesis by (simp add: copy_cell_def)
qed

lemma CachedBuffer3_new_result:
  assumes len: "length backing = vx sz * vy sz * vz sz"
      and fits: "vx ext * vy ext * vz ext \<le> length shared"
  shows "\<exists>cb. CachedBuffer3_new backing sz shared ext off = Some cb \<and>
           m_buffer cb = backing \<and> m_size cb = sz \<and> m_sharedSize cb = ext \<and>
           m_sharedOffset cb = off \<and> length (m_sharedBuffer cb) = length shared \<and>
           (\<forall>i<length shared. m_sharedBuffer cb ! i =
              (if i < vx ext * vy ext * vz ext \<and> inside sz (offset_by off (tile_position ext i))
               then backing ! Buffer3_index sz (offset_by off (tile_position ext i))
               else shared ! i))"
proof -
  let ?T = "\<lambda>j. if inside sz (offset_by off (tile_position ext j)) then {j} else {}"
  let ?G = "\<lambda>i. backing ! Buffer3_index sz (offset_by off (tile_position ext i))"
  let ?js = "[0 ..< vx ext * vy ext * vz ext]"
  have "\<exists>s'. run_all (copy_cell backing sz ext off) ?js shared = Some s' \<and>
          length s' = length shared \<and>
          (\<forall>i<length shared. s' ! i = (if i \<in> (\<Union>t\<in>set ?js. ?T t) then ?G i else shared ! i))"
  proof (rule run_all_pointwise)
    fix t and s :: buffer
    assume "t \<in> set ?js" and "length s = length shared"
    then show "\<exists>s'. copy_cell backing sz ext off t s = Some s' \<and> length s' = length shared \<and>
        (\<forall>i<length shared. s' ! i = (if i \<in> ?T t then ?G i else s ! i))"
      using copy_cell_pointwise [OF len, of t "length shared" s ext off] fits by simp
  qed simp
  then obtain s' where s': "run_all (copy_cell backing sz ext off) ?js shared = Some s'"
      "length s' = length shared"
      "\<forall>i<length shared. s' ! i = (if i \<in> (\<Union>t\<in>set ?js. ?T t) then ?G i else shared ! i)"
    by blast
  have "(\<Union>t\<in>set ?js. ?T t) =
          {i. i < vx ext * vy ext * vz ext \<and> inside sz (offset_by off (tile_position ext i))}"
    by (auto split: if_splits)
  with s' show ?thesis
    by (simp add: CachedBuffer3_new_def)
qed

lemma CachedBuffer3_get_after_new:
  assumes len: "length backing = vx sz * vy sz * vz sz"
      and fits: "vx ext * vy ext * vz ext \<le> length shared"
      and new: "CachedBuffer3_new backing sz shared ext off = Some cb"
      and p: "inside sz p"
  shows "CachedBuffer3_get cb p = Some (backing ! Buffer3_index sz p)"
proof -
  from CachedBuffer3_new_result [OF len fits, of off] new
  have cb: "m_buffer cb = backing" "m_size cb = sz" "m_sharedSize cb = ext" "m_sharedOffset cb = off"
      "length (m_sharedBuffer cb) = length shared"
      "\<forall>i<length shared. m_sharedBuffer cb ! i =
              (if i < vx ext * vy ext * vz ext \<and> inside sz (offset_by off (tile_position ext i))
               then backing ! Buffer3_index sz (offset_by off (tile_position ext i))
               else shared ! i)"
    by auto
  show ?thesis
  proof (cases "in_tile cb p")
    case True
    let ?l = "\<lparr>vx = vx p - vx off, vy = vy p - vy off, vz = vz p - vz off\<rparr>"
    from True have l: "vx ?l < vx ext" "vy ?l < vy ext" "vz ?l < vz ext"
      and ge: "vx off \<le> vx p" "vy off \<le> vy p" "vz off \<le> vz p"
      by (auto simp: in_tile_def cb)
    have pos: "tile_position ext (tile_index ext ?l) = ?l"
      using l by (intro tile_position_index)
    have less: "tile_index ext ?l < vx ext * vy ext * vz ext"
      using l by (intro tile_index_less)
    have shift: "offset_by off ?l = p"
      using ge by (simp add: offset_by_def)
    have "m_sharedBuffer cb ! tile_index ext ?l = backing ! Buffer3_index sz p"
      using cb(6) less fits p by (simp add: pos shift)
    with True less fits show ?thesis
      by (simp add: CachedBuffer3_get_def cb buffer_read_def)
  next
    case False
    have "Buffer3_index sz p < length backing"
      using Buffer3_index_less [OF p] len by simp
    with False show ?thesis
      by (simp add: CachedBuffer3_get_def cb buffer_read_def)
  qed
qed

section \<open>Threads, blocks and the launch\<close>

lemma clampCast_threshold_value:
  "\<exists>v. clampCast T (threshold_value threshold w) = Some v"
  by (cases w) (simp_all add: threshold_value_def ge_WorkType_def)

lemma processKernel_outside:
  "\<not> inside sz (thread_position blockDim blockIdx threadIdx) \<Longrightarrow>
     processKernel OutputType blockDim blockIdx threadIdx cb sz threshold outputImage = Some outputImage"
  by (auto simp: processKernel_def Let_def inside_def)

lemma processKernel_inside:
  "inside sz (thread_position blockDim blockIdx threadIdx) \<Longrightarrow>
     processKernel OutputType blockDim blockIdx threadIdx cb sz threshold outputImage =
       (case CachedBuffer3_get cb (thread_position blockDim blockIdx threadIdx) of
          None \<Rightarrow> None
        | Some None \<Rightarrow> None
        | Some (Some s) \<Rightarrow>
            (case clampCast OutputType (threshold_value threshold (to_WorkType s)) of
               None \<Rightarrow> None
             | Some v \<Rightarrow> Buffer3_set outputImage sz (thread_position blockDim blockIdx threadIdx) v))"
  by (simp add: processKernel_def Let_def inside_def threshold_value_def split: option.split)

lemma processKernel_pointwise:
  assumes get: "\<And>p. inside sz p \<Longrightarrow> CachedBuffer3_get cb p = Some (inputImage ! Buffer3_index sz p)"
      and len: "length inputImage = vx sz * vy sz * vz sz"
      and init: "None \<notin> set inputImage"
      and out: "length outputImage = vx sz * vy sz * vz sz"
  shows "\<exists>out'. processKernel OutputType blockDim blockIdx threadIdx cb sz threshold outputImage = Some out' \<and>
           length out' = vx sz * vy sz * vz sz \<and>
           (\<forall>i<vx sz * vy sz * vz sz. out' ! i =
              (if i \<in> writes sz blockDim blockIdx threadIdx
               then filtered OutputType threshold (inputImage ! i) else outputImage ! i))"
proof (cases "inside sz (thread_position blockDim blockIdx threadIdx)")
  case True
  let ?p = "thread_position blockDim blockIdx threadIdx"
  let ?i = "Buffer3_index sz ?p"
  have i: "?i < vx sz * vy sz * vz sz"
    using True by (rule Buffer3_index_less)
  then have "inputImage ! ?i \<in> set inputImage"
    using len by simp
  with init obtain s where s: "inputImage ! ?i = Some s"
    by (cases "inputImage ! ?i") auto
  obtain v where v: "clampCast OutputType (threshold_value threshold (to_WorkType s)) = Some v"
    using clampCast_threshold_value by blast
  have "processKernel OutputType blockDim blockIdx threadIdx cb sz threshold outputImage
          = Some (outputImage[?i := Some v])"
    using True get [OF True] s v i out
    by (simp add: processKernel_inside Buffer3_set_def buffer_write_def)
  moreover have "filtered OutputType threshold (inputImage ! ?i) = Some v"
    by (simp add: filtered_def s v)
  ultimately show ?thesis
    using True out by (simp add: writes_def nth_list_update)
next
  case False
  then show ?thesis
    using out by (simp add: processKernel_outside writes_def)
qed

lemma run_block_pointwise:
  assumes len: "length inputImage = vx sz * vy sz * vz sz"
      and init: "None \<notin> set inputImage"
      and fits: "dx blockDim * dy blockDim * dz blockDim \<le> smemSize div sizeof InputType"
      and out: "length outputImage = vx sz * vy sz * vz sz"
  shows "\<exists>out'. run_block InputType OutputType blockDim smemSize inputImage sz threshold blockIdx outputImage = Some out' \<and>
           length out' = vx sz * vy sz * vz sz \<and>
           (\<forall>i<vx sz * vy sz * vz sz. out' ! i =
              (if i \<in> (\<Union>t\<in>set (indices blockDim). writes sz blockDim blockIdx t)
               then filtered OutputType threshold (inputImage ! i) else outputImage ! i))"
proof -
  let ?smem = "replicate (smemSize div sizeof InputType) None :: buffer"
  let ?ext = "tile_extent blockDim"
  let ?off = "tile_origin blockDim blockIdx"
  have fits': "vx ?ext * vy ?ext * vz ?ext \<le> length ?smem"
    using fits by (simp add: tile_extent_def)
  from CachedBuffer3_new_result [OF len fits', of ?off]
  obtain cb where cb: "CachedBuffer3_new inputImage sz ?smem ?ext ?off = Some cb"
    by blast
  have get: "\<And>p. inside sz p \<Longrightarrow> CachedBuffer3_get cb p = Some (inputImage ! Buffer3_index sz p)"
    by (rule CachedBuffer3_get_after_new [OF len fits' cb])
  have "\<exists>out'. run_all (\<lambda>t. processKernel OutputType blockDim blockIdx t cb sz threshold)
                  (indices blockDim) outputImage = Some out' \<and>
           length out' = vx sz * vy sz * vz sz \<and>
           (\<forall>i<vx sz * vy sz * vz sz. out' ! i =
              (if i \<in> (\<Union>t\<in>set (indices blockDim). writes sz blockDim blockIdx t)
               then filtered OutputType threshold (inputImage ! i) else outputImage ! i))"
  proof (rule run_all_pointwise)
    fix t and s :: buffer
    assume s: "length s = vx sz * vy sz * vz sz"
    show "\<exists>s'. processKernel OutputType blockDim blockIdx t cb sz threshold s = Some s' \<and>
        length s' = vx sz * vy sz * vz sz \<and>
        (\<forall>i<vx sz * vy sz * vz sz. s' ! i =
           (if i \<in> writes sz blockDim blockIdx t
            then filtered OutputType threshold (inputImage ! i) else s ! i))"
      using get len init s by (rule processKernel_pointwise)
  qed (rule out)
  then show ?thesis
    by (simp add: run_block_def inputBuffer_of_def cb)
qed

lemma launch_pointwise:
  assumes len: "length inputImage = vx sz * vy sz * vz sz"
      and init: "None \<notin> set inputImage"
      and fits: "dx blockDim * dy blockDim * dz blockDim \<le> smemSize div sizeof InputType"
      and out: "length outputImage = vx sz * vy sz * vz sz"
  shows "\<exists>out'. launch InputType OutputType gridDim blockDim smemSize inputImage sz threshold outputImage = Some out' \<and>
           length out' = vx sz * vy sz * vz sz \<and>
           (\<forall>i<vx sz * vy sz * vz sz. out' ! i =
              (if i \<in> (\<Union>b\<in>set (indices gridDim). \<Union>t\<in>set (indices blockDim). writes sz blockDim b t)
               then filtered OutputType threshold (inputImage ! i) else outputImage ! i))"
  unfolding launch_def
proof (rule run_all_pointwise)
  fix b and s :: buffer
  assume s: "length s = vx sz * vy sz * vz sz"
  show "\<exists>s'. run_block InputType OutputType blockDim smemSize inputImage sz threshold b s = Some s' \<and>
      length s' = vx sz * vy sz * vz sz \<and>
      (\<forall>i<vx sz * vy sz * vz sz. s' ! i =
         (if i \<in> (\<Union>t\<in>set (indices blockDim). writes sz blockDim b t)
          then filtered OutputType threshold (inputImage ! i) else s ! i))"
    using len init fits s by (rule run_block_pointwise)
qed (rule out)

lemma set_indices:
  "set (indices d) = (\<Union>k\<in>{0..<dz d}. \<Union>j\<in>{0..<dy d}. (\<lambda>i. \<lparr>dx = i, dy = j, dz = k\<rparr>) ` {0..<dx d})"
  by (simp add: indices_def)

lemma in_indices_fields:
  "\<lparr>dx = i, dy = j, dz = k\<rparr> \<in> set (indices d) \<longleftrightarrow> i < dx d \<and> j < dy d \<and> k < dz d"
  unfolding set_indices by (simp add: image_iff)

lemma in_indices:
  "b \<in> set (indices d) \<longleftrightarrow> dx b < dx d \<and> dy b < dy d \<and> dz b < dz (d :: dim3)" for b :: dim3
  by (cases b) (simp add: in_indices_fields)

lemma sharedMemorySize_fits:
  "dx blockSize * dy blockSize * dz blockSize \<le> sharedMemorySize InputType div sizeof InputType"
  by (cases InputType) (simp_all add: sharedMemorySize_def blockSize_def wrap32_def wrap64_def)

lemma covered:
  assumes p: "inside sz p"
      and w: "vx sz + 31 < 2 ^ 32" and h: "vy sz + 3 < 2 ^ 32" and d: "vz sz < 2 ^ 32"
  shows "Buffer3_index sz p \<in>
           (\<Union>b\<in>set (indices (gridSize sz)). \<Union>t\<in>set (indices blockSize). writes sz blockSize b t)"
proof -
  let ?b = "\<lparr>dx = vx p div 32, dy = vy p div 4, dz = vz p\<rparr>"
  let ?t = "\<lparr>dx = vx p mod 32, dy = vy p mod 4, dz = 0\<rparr>"
  from p have lt: "vx p < vx sz" "vy p < vy sz" "vz p < vz sz"
    by (simp_all add: inside_def)
  have gx: "dx (gridSize sz) = (vx sz + 31) div 32"
    using w by (simp add: gridSize_def blockSize_def wrap32_def wrap64_def)
  have gy: "dy (gridSize sz) = (vy sz + 3) div 4"
    using h by (simp add: gridSize_def blockSize_def wrap32_def wrap64_def)
  have gz: "dz (gridSize sz) = vz sz"
    using d by (simp add: gridSize_def blockSize_def wrap32_def wrap64_def)
  have b: "?b \<in> set (indices (gridSize sz))"
    using lt by (simp add: in_indices gx gy gz) arith
  have t: "?t \<in> set (indices blockSize)"
    by (simp add: in_indices blockSize_def)
  have "thread_position blockSize ?b ?t = p"
    using lt w h d by (simp add: thread_position_def blockSize_def wrap32_def)
  then have "Buffer3_index sz p \<in> writes sz blockSize ?b ?t"
    using p by (simp add: writes_def)
  with b t show ?thesis by blast
qed

lemma kernel_call_voxels:
  assumes ok: "volume_ok sz inputImage"
      and out: "length outputImage = vx sz * vy sz * vz sz"
  shows "\<exists>out'. kernel_call InputType OutputType inputImage sz threshold outputImage = Some out' \<and>
           length out' = vx sz * vy sz * vz sz \<and>
           (\<forall>p. inside sz p \<longrightarrow>
              out' ! Buffer3_index sz p = filtered OutputType threshold (inputImage ! Buffer3_index sz p))"
proof -
  from ok have len: "length inputImage = vx sz * vy sz * vz sz" and init: "None \<notin> set inputImage"
    and w: "vx sz + 31 < 2 ^ 32" and h: "vy sz + 3 < 2 ^ 32" and d: "vz sz < 2 ^ 32"
    by (simp_all add: volume_ok_def)
  let ?W = "\<Union>b\<in>set (indices (gridSize sz)). \<Union>t\<in>set (indices blockSize). writes sz blockSize b t"
  from launch_pointwise [OF len init sharedMemorySize_fits out]
  obtain out' where out':
      "launch InputType OutputType (gridSize sz) blockSize (sharedMemorySize InputType)
         inputImage sz threshold outputImage = Some out'"
      "length out' = vx sz * vy sz * vz sz"
      "\<forall>i<vx sz * vy sz * vz sz. out' ! i =
         (if i \<in> ?W then filtered OutputType threshold (inputImage ! i) else outputImage ! i)"
    by blast
  have "out' ! Buffer3_index sz p = filtered OutputType threshold (inputImage ! Buffer3_index sz p)"
    if p: "inside sz p" for p
    using out'(3) Buffer3_index_less [OF p] covered [OF p w h d] by simp
  with out'(1,2) show ?thesis
    by (simp add: kernel_call_def)
qed

lemma voxel_of_index:
  assumes i: "i < vx sz * vy sz * vz sz" and fit: "vx sz * vy sz * vz sz < 2 ^ 64"
  shows "\<exists>p. inside sz p \<and> Buffer3_index sz p = i"
proof -
  let ?w = "vx sz" and ?h = "vy sz" and ?d = "vz sz"
  let ?p = "\<lparr>vx = i mod ?w, vy = (i div ?w) mod ?h, vz = i div (?w * ?h)\<rparr>"
  from i have pos: "0 < ?w" "0 < ?h"
    by (auto intro: Nat.gr0I)
  have z: "i div (?w * ?h) < ?d"
    using i pos by (simp add: less_mult_imp_div_less mult.commute)
  have "inside sz ?p"
    using pos z by (simp add: inside_def)
  moreover have "i mod ?w + (i div ?w) mod ?h * ?w + i div (?w * ?h) * ?w * ?h = i"
  proof -
    have a: "i div (?w * ?h) = i div ?w div ?h"
      by (rule div_mult2_eq)
    have "?w * ((i div ?w) mod ?h + ?h * (i div ?w div ?h)) = ?w * (i div ?w)"
      by simp
    then have "?w * ((i div ?w) mod ?h) + ?w * (?h * (i div ?w div ?h)) = ?w * (i div ?w)"
      by (simp only: distrib_left)
    then have "(i div ?w) mod ?h * ?w + i div (?w * ?h) * ?w * ?h = ?w * (i div ?w)"
      by (simp only: a mult.commute mult.left_commute)
    then have "i mod ?w + ((i div ?w) mod ?h * ?w + i div (?w * ?h) * ?w * ?h)
                 = i mod ?w + ?w * (i div ?w)"
      by (simp only:)
    also have "\<dots> = i"
      by simp
    finally show ?thesis
      by (simp only: add.assoc)
  qed
  then have "Buffer3_index sz ?p = i"
    using i fit by (simp add: Buffer3_index_def wrap64_def)
  ultimately show ?thesis by blast
qed

lemma kernel_call_result:
  assumes ok: "volume_ok sz inputImage"
      and out: "length outputImage = vx sz * vy sz * vz sz"
  shows "kernel_call InputType OutputType inputImage sz threshold outputImage =
           Some (map (filtered OutputType threshold) inputImage)"
proof -
  from ok have len: "length inputImage = vx sz * vy sz * vz sz"
    and fit: "vx sz * vy sz * vz sz < 2 ^ 64"
    by (simp_all add: volume_ok_def)
  from kernel_call_voxels [OF ok out]
  obtain out' where out':
      "kernel_call InputType OutputType inputImage sz threshold outputImage = Some out'"
      "length out' = vx sz * vy sz * vz sz"
      "\<forall>p. inside sz p \<longrightarrow>
          out' ! Buffer3_index sz p = filtered OutputType threshold (inputImage ! Buffer3_index sz p)"
    by blast
  have "out' = map (filtered OutputType threshold) inputImage"
  proof (rule nth_equalityI)
    show "length out' = length (map (filtered OutputType threshold) inputImage)"
      using out'(2) len by simp
  next
    fix i assume "i < length out'"
    then have i: "i < vx sz * vy sz * vz sz" using out'(2) by simp
    from voxel_of_index [OF i fit] obtain p where p: "inside sz p" "Buffer3_index sz p = i"
      by blast
    with out'(3) have "out' ! i = filtered OutputType threshold (inputImage ! i)"
      by auto
    with i len show "out' ! i = map (filtered OutputType threshold) inputImage ! i"
      by simp
  qed
  with out'(1) show ?thesis by simp
qed

lemma process_result:
  assumes ptr: "imageData < length mem"
      and ok: "volume_ok sz (elements (mem ! imageData))"
  shows "process narrow InputType OutputType mem imageData sz threshold =
           Some (length (snd (inImageData_of mem imageData)),
                 snd (inImageData_of mem imageData) @
                   [\<lparr>location = LocationGpu, stream = stream (mem ! imageData),
                     elements = map (filtered OutputType (narrow threshold)) (elements (mem ! imageData))\<rparr>])"
proof -
  obtain i mem1 where im: "inImageData_of mem imageData = (i, mem1)"
    by (cases "inImageData_of mem imageData")
  have i: "i < length mem1" and same: "elements (mem1 ! i) = elements (mem ! imageData)"
    and strm: "stream (mem1 ! i) = stream (mem ! imageData)"
    using im ptr
    by (auto simp: inImageData_of_def Let_def make_shared_def Container_copy_def getStream_def
          split: if_splits)
  from ok have fit: "vx sz * vy sz * vz sz < 2 ^ 64"
    by (simp add: volume_ok_def)
  let ?out = "Container_new LocationGpu (getStream (mem1 ! i)) (wrap64 (vx sz * vy sz * vz sz))"
  have len: "length (elements ?out) = vx sz * vy sz * vz sz"
    using fit by (simp add: Container_new_def wrap64_def)
  have k: "kernel_call InputType OutputType (elements (mem ! imageData)) sz (narrow threshold) (elements ?out)
        = Some (map (filtered OutputType (narrow threshold)) (elements (mem ! imageData)))"
    by (rule kernel_call_result [OF ok len])
  show ?thesis
    using ptr i k
    by (simp add: process_def im make_shared_def Let_def nth_append same strm
          Container_new_def getStream_def)
qed

section \<open>Thresholding and the saturating cast\<close>

lemma lt_not_ge: "lt_WorkType a b \<Longrightarrow> \<not> ge_WorkType a b"
  by (auto simp: lt_WorkType_def ge_WorkType_def split: option.splits)

lemma eq_ge: "eq_WorkType a b \<Longrightarrow> ge_WorkType a b"
  by (auto simp: eq_WorkType_def ge_WorkType_def split: option.splits)

lemma clampCast_zero: "clampCast T (Fin 0) = Some (zero_sample T)"
  by (cases T) (simp_all add: clamp_def trunc_toward_zero_def FLT_MAX_def)

lemma clampCast_above:
  assumes "lt_WorkType (Fin (limit_max T)) v"
  shows "clampCast T v = Some (max_sample T)"
proof (cases v)
  case (Fin q)
  with assms have "limit_max T < q" by (simp add: lt_WorkType_def)
  then have "clamp T q = limit_max T"
    by (cases T) (simp_all add: clamp_def FLT_MAX_def)
  then show ?thesis
    by (cases T) (simp_all add: Fin trunc_toward_zero_def FLT_MAX_def)
next
  case PInf
  then show ?thesis
    by (cases T) (simp_all add: trunc_toward_zero_def FLT_MAX_def)
qed (use assms in \<open>cases T; simp add: lt_WorkType_def FLT_MAX_def\<close>)+

lemma abs_ge_nonpositive:
  assumes "ge_WorkType (Fin 0) threshold" and "\<not> is_NaN w"
  shows "ge_WorkType (abs_WorkType w) threshold"
  using assms by (cases w; cases threshold) (auto simp: ge_WorkType_def is_NaN_def)

lemma filtered_Some:
  "filtered T threshold (Some s) =
     clampCast T (if ge_WorkType (abs_WorkType (to_WorkType s)) threshold then to_WorkType s else Fin 0)"
  by (simp add: filtered_def threshold_value_def)

lemma filtered_defined: "filtered T threshold (Some s) \<noteq> None"
  using clampCast_threshold_value [of T threshold "to_WorkType s"] by (auto simp: filtered_def)

lemma trunc_of_int: "trunc_toward_zero (of_int k) = k"
proof -
  have "- (of_int k :: rat) = of_int (- k)" by simp
  then have "\<lfloor>- (of_int k :: rat)\<rfloor> = - k" by (simp only: floor_of_int)
  then show ?thesis by (simp add: trunc_toward_zero_def)
qed

lemma recast_nat:
  assumes "n \<le> 255"
  shows "clampCast UInt8 (threshold_value (Fin 0) (Fin (of_nat n))) = Some (U8 (of_nat n))"
proof -
  have pass: "threshold_value (Fin 0) (Fin (of_nat n)) = Fin (of_int (int n))"
    by (simp add: threshold_value_def ge_WorkType_def)
  have "(of_nat n :: rat) \<le> of_nat 255"
    using assms by (simp only: of_nat_le_iff)
  then have "clamp UInt8 (of_int (int n)) = of_int (int n)"
    by (simp add: clamp_def)
  then have "clampCast UInt8 (Fin (of_int (int n))) = Some (U8 (word_of_int (int n)))"
    by (simp only: clampCast.simps static_cast.simps trunc_of_int)
  then show ?thesis
    by (simp add: pass)
qed

lemma recast_int:
  assumes "- 32768 \<le> k" and "k \<le> 32767"
  shows "clampCast Int16 (threshold_value (Fin 0) (Fin (of_int k))) = Some (I16 (of_int k))"
proof -
  have pass: "threshold_value (Fin 0) (Fin (of_int k)) = Fin (of_int k)"
    by (simp add: threshold_value_def ge_WorkType_def)
  have "(of_int (- 32768) :: rat) \<le> of_int k" "(of_int k :: rat) \<le> of_int 32767"
    using assms by (simp_all only: of_int_le_iff)
  then have "clamp Int16 (of_int k) = of_int k"
    by (simp add: clamp_def)
  then have "clampCast Int16 (Fin (of_int k)) = Some (I16 (word_of_int k))"
    by (simp only: clampCast.simps static_cast.simps trunc_of_int)
  then show ?thesis
    by (simp add: pass)
qed

lemma recast_U8: "clampCast UInt8 (threshold_value (Fin 0) (to_WorkType (U8 w))) = Some (U8 w)"
proof -
  have "unat w < 2 ^ 8"
    using unsigned_less [of w, where 'a = nat] by simp
  then have "unat w \<le> 255" by simp
  from recast_nat [OF this] show ?thesis
    by simp
qed

lemma recast_I16: "clampCast Int16 (threshold_value (Fin 0) (to_WorkType (I16 w))) = Some (I16 w)"
proof -
  have "- 32768 \<le> sint w" and "sint w \<le> 32767"
    using sint_ge [of w] sint_lt [of w] by simp_all
  from recast_int [OF this] show ?thesis
    by simp
qed

lemma recast_F32:
  assumes "f = NegZero \<or> (\<exists>q. f = Fin q \<and> - FLT_MAX \<le> q \<and> q \<le> FLT_MAX)"
  shows "clampCast Float32 (threshold_value (Fin 0) (to_WorkType (F32 f))) = Some (F32 f)"
  using assms by (auto simp: threshold_value_def ge_WorkType_def clamp_def)

lemma clampCast_Float32_range:
  assumes "clampCast Float32 v = Some s"
  shows "\<exists>f. s = F32 f \<and> (f = NegZero \<or> (\<exists>q. f = Fin q \<and> - FLT_MAX \<le> q \<and> q \<le> FLT_MAX))"
  using assms by (cases v) (auto simp: clamp_def FLT_MAX_def)

lemma clampCast_recast:
  assumes "clampCast T v = Some s"
  shows "clampCast T (threshold_value (Fin 0) (to_WorkType s)) = Some s"
proof (cases T)
  case UInt8
  with assms obtain w where "s = U8 w" by (cases v) auto
  with UInt8 show ?thesis by (simp only: recast_U8)
next
  case Int16
  with assms obtain w where "s = I16 w" by (cases v) auto
  with Int16 show ?thesis by (simp only: recast_I16)
next
  case Float32
  with assms clampCast_Float32_range [of v s] obtain f where
    "s = F32 f" "f = NegZero \<or> (\<exists>q. f = Fin q \<and> - FLT_MAX \<le> q \<and> q \<le> FLT_MAX)"
    by blast
  with Float32 show ?thesis by (simp only: recast_F32)
qed

lemma filtered_idem:
  "filtered T (Fin 0) (filtered T (Fin 0) c) = filtered T (Fin 0) c"
proof (cases c)
  case None
  then show ?thesis by (simp add: filtered_def)
next
  case (Some s)
  obtain s' where s': "clampCast T (threshold_value (Fin 0) (to_WorkType s)) = Some s'"
    using clampCast_threshold_value by blast
  then show ?thesis
    using clampCast_recast [OF s'] by (simp add: filtered_def Some)
qed

lemma volume_ok_filtered:
  assumes "volume_ok sz inputImage"
  shows "volume_ok sz (map (filtered T threshold) inputImage)"
proof -
  from assms have init: "None \<notin> set inputImage"
    by (simp add: volume_ok_def)
  have "None \<notin> set (map (filtered T threshold) inputImage)"
  proof
    assume "None \<in> set (map (filtered T threshold) inputImage)"
    then obtain c where c: "c \<in> set inputImage" "filtered T threshold c = None"
      by (auto simp: image_iff)
    have "c \<noteq> None"
    proof
      assume "c = None"
      with c(1) init show False by simp
    qed
    then obtain s where "c = Some s"
      by (cases c) simp_all
    with c(2) show False
      by (simp add: filtered_defined)
  qed
  with assms show ?thesis
    by (simp add: volume_ok_def)
qed

lemma input_sample:
  assumes "volume_ok sz inputImage" and "inside sz p"
  shows "\<exists>s. inputImage ! Buffer3_index sz p = Some s"
proof -
  from assms have "Buffer3_index sz p < length inputImage" and init: "None \<notin> set inputImage"
    using Buffer3_index_less [of sz p] by (simp_all add: volume_ok_def)
  then have "inputImage ! Buffer3_index sz p \<in> set inputImage"
    by simp
  with init have "inputImage ! Buffer3_index sz p \<noteq> None"
    by metis
  then show ?thesis
    by (cases "inputImage ! Buffer3_index sz p") simp_all
qed

section \<open>Voxels of a kernel call\<close>

lemma kernel_call_sample:
  assumes "volume_ok sz inputImage"
      and "length outputImage = vx sz * vy sz * vz sz"
      and "inside sz p"
      and "inputImage ! Buffer3_index sz p = Some s"
  shows "\<exists>out'. kernel_call InputType OutputType inputImage sz threshold outputImage = Some out' \<and>
           out' ! Buffer3_index sz p = clampCast OutputType (threshold_value threshold (to_WorkType s)) \<and>
           out' ! Buffer3_index sz p \<noteq> None"
proof -
  from kernel_call_voxels [OF assms(1,2)] assms(3)
  obtain out' where out':
      "kernel_call InputType OutputType inputImage sz threshold outputImage = Some out'"
      "out' ! Buffer3_index sz p = filtered OutputType threshold (inputImage ! Buffer3_index sz p)"
    by blast
  have "filtered OutputType threshold (inputImage ! Buffer3_index sz p)
          = clampCast OutputType (threshold_value threshold (to_WorkType s))"
    by (simp add: assms(4) filtered_def)
  moreover have "filtered OutputType threshold (inputImage ! Buffer3_index sz p) \<noteq> None"
    by (simp only: assms(4) filtered_defined not_False_eq_True)
  ultimately show ?thesis
    using out' by simp
qed

lemma index_000: "Buffer3_index sz \<lparr>vx = 0, vy = 0, vz = 0\<rparr> = 0"
  by (simp add: Buffer3_index_def wrap64_def)

lemma unit_volume_ok: "volume_ok \<lparr>vx = 1, vy = 1, vz = 1\<rparr> [Some s]"
  by (simp add: volume_ok_def)

lemma unit_inside: "inside \<lparr>vx = 1, vy = 1, vz = 1\<rparr> \<lparr>vx = 0, vy = 0, vz = 0\<rparr>"
  by (simp add: inside_def)


section \<open>The stage driver\<close>

lemma inImageData_of_host:
  "location (mem ! imageData) = LocationHost \<Longrightarrow>
     inImageData_of mem imageData =
       (length mem, mem @ [\<lparr>location = LocationGpu, stream = stream (mem ! imageData),
                             elements = elements (mem ! imageData)\<rparr>])"
  by (simp add: inImageData_of_def isGPU_def isBoth_def make_shared_def Container_copy_def
        getStream_def)

lemma inImageData_of_device:
  "location (mem ! imageData) \<noteq> LocationHost \<Longrightarrow> inImageData_of mem imageData = (imageData, mem)"
  by (cases "location (mem ! imageData)") (simp_all add: inImageData_of_def isGPU_def isBoth_def)

lemma inImageData_of_same:
  assumes "imageData < length mem"
  shows "fst (inImageData_of mem imageData) < length (snd (inImageData_of mem imageData))"
    and "elements (snd (inImageData_of mem imageData) ! fst (inImageData_of mem imageData))
           = elements (mem ! imageData)"
    and "stream (snd (inImageData_of mem imageData) ! fst (inImageData_of mem imageData))
           = stream (mem ! imageData)"
    and "take (length mem) (snd (inImageData_of mem imageData)) = mem"
    and "length (snd (inImageData_of mem imageData))
           = length mem + (if location (mem ! imageData) = LocationHost then 1 else 0)"
  using assms
  by (cases "location (mem ! imageData) = LocationHost";
      simp add: inImageData_of_host inImageData_of_device)+

lemma process_Some:
  assumes "process narrow InputType OutputType mem imageData sz threshold = Some (out, mem')"
  shows "imageData < length mem \<and> out = length (snd (inImageData_of mem imageData)) \<and>
         length mem' = Suc (length (snd (inImageData_of mem imageData))) \<and>
         take (length (snd (inImageData_of mem imageData))) mem' = snd (inImageData_of mem imageData)"
proof -
  obtain i mem1 where im: "inImageData_of mem imageData = (i, mem1)"
    by (cases "inImageData_of mem imageData")
  from assms show ?thesis
    by (auto simp: process_def im make_shared_def Let_def split: if_splits option.splits)
qed

lemma host_volume_ok: "volume_ok \<lparr>vx = 2, vy = 1, vz = 1\<rparr> (elements (host_volume ! 0))"
  by (simp add: host_volume_def volume_ok_def)

lemma device_volume_ok: "volume_ok \<lparr>vx = 2, vy = 1, vz = 1\<rparr> (elements (device_volume ! 0))"
  by (simp add: device_volume_def volume_ok_def)

lemma inputBuffer_of_result:
  assumes len: "length inputImage = vx sz * vy sz * vz sz"
      and fits: "dx blockDim * dy blockDim * dz blockDim \<le> length smem"
  shows "\<exists>cb. inputBuffer_of inputImage sz smem blockDim blockIdx = Some cb \<and>
           length (m_sharedBuffer cb) = length smem \<and>
           (\<forall>j<length smem. m_sharedBuffer cb ! j =
              (if j < dx blockDim * dy blockDim * dz blockDim \<and>
                  inside sz (offset_by (tile_origin blockDim blockIdx)
                               (tile_position (tile_extent blockDim) j))
               then inputImage ! Buffer3_index sz
                      (offset_by (tile_origin blockDim blockIdx)
                         (tile_position (tile_extent blockDim) j))
               else smem ! j)) \<and>
           (\<forall>p. inside sz p \<longrightarrow> CachedBuffer3_get cb p = Some (inputImage ! Buffer3_index sz p))"
proof -
  let ?ext = "tile_extent blockDim" and ?off = "tile_origin blockDim blockIdx"
  have fits': "vx ?ext * vy ?ext * vz ?ext \<le> length smem"
    using fits by (simp add: tile_extent_def)
  have vol: "vx ?ext * vy ?ext * vz ?ext = dx blockDim * dy blockDim * dz blockDim"
    by (simp add: tile_extent_def)
  from CachedBuffer3_new_result [OF len fits', of ?off]
  obtain cb where cb: "CachedBuffer3_new inputImage sz smem ?ext ?off = Some cb"
      "length (m_sharedBuffer cb) = length smem"
      "\<forall>i<length smem. m_sharedBuffer cb ! i =
         (if i < vx ?ext * vy ?ext * vz ?ext \<and> inside sz (offset_by ?off (tile_position ?ext i))
          then inputImage ! Buffer3_index sz (offset_by ?off (tile_position ?ext i))
          else smem ! i)"
    by blast
  have "CachedBuffer3_get cb p = Some (inputImage ! Buffer3_index sz p)" if "inside sz p" for p
    using len fits' cb(1) that by (rule CachedBuffer3_get_after_new)
  with cb show ?thesis
    unfolding inputBuffer_of_def vol by blast
qed

lemma filtered_nonpositive:
  assumes "ge_WorkType (Fin 0) threshold" and "\<not> is_NaN (to_WorkType s)"
  shows "filtered OutputType threshold (Some s) = cast_cell OutputType (Some s)"
  using abs_ge_nonpositive [OF assms]
  by (simp add: filtered_def cast_cell_def threshold_value_def)


section \<open>The claims\<close>

text \<open>
  C1. For every voxel inside the volume, the kernel widens the input sample to the work
  type, keeps it if its magnitude is at least the threshold and takes zero otherwise, and
  writes the saturating cast of that value at the voxel. A voxel whose magnitude is strictly
  below the threshold gets the zero of the output type.
\<close>

theorem kernel_thresholds_voxel:
  assumes "volume_ok sz inputImage"
      and "length outputImage = vx sz * vy sz * vz sz"
      and "inside sz p"
  shows "\<exists>out' s.
           kernel_call InputType OutputType inputImage sz threshold outputImage = Some out' \<and>
           inputImage ! Buffer3_index sz p = Some s \<and>
           out' ! Buffer3_index sz p =
             clampCast OutputType
               (if ge_WorkType (abs_WorkType (to_WorkType s)) threshold then to_WorkType s else Fin 0) \<and>
           out' ! Buffer3_index sz p \<noteq> None \<and>
           (lt_WorkType (abs_WorkType (to_WorkType s)) threshold \<longrightarrow>
              out' ! Buffer3_index sz p = Some (zero_sample OutputType))"
proof -
  from kernel_call_voxels [OF assms(1,2)] assms(3)
  obtain out' where out':
      "kernel_call InputType OutputType inputImage sz threshold outputImage = Some out'"
      "out' ! Buffer3_index sz p = filtered OutputType threshold (inputImage ! Buffer3_index sz p)"
    by blast
  from input_sample [OF assms(1,3)] obtain s where s: "inputImage ! Buffer3_index sz p = Some s"
    by blast
  have 1: "out' ! Buffer3_index sz p =
             clampCast OutputType
               (if ge_WorkType (abs_WorkType (to_WorkType s)) threshold then to_WorkType s else Fin 0)"
    by (simp only: out'(2) s filtered_Some)
  have 2: "out' ! Buffer3_index sz p \<noteq> None"
    by (simp only: out'(2) s filtered_defined not_False_eq_True)
  have 3: "out' ! Buffer3_index sz p = Some (zero_sample OutputType)"
    if "lt_WorkType (abs_WorkType (to_WorkType s)) threshold"
    using lt_not_ge [OF that] by (simp only: 1 if_False clampCast_zero)
  from out'(1) s 1 2 3 show ?thesis
    by blast
qed

theorem kernel_thresholds_voxel_witness:
  "volume_ok \<lparr>vx = 2, vy = 1, vz = 1\<rparr> [Some (I16 50), Some (I16 (- 5))] \<and>
   length [None :: cell, None] = vx \<lparr>vx = 2, vy = 1, vz = 1\<rparr> * vy \<lparr>vx = 2, vy = 1, vz = 1\<rparr> * vz \<lparr>vx = 2, vy = 1, vz = 1\<rparr> \<and>
   inside \<lparr>vx = 2, vy = 1, vz = 1\<rparr> \<lparr>vx = 1, vy = 0, vz = 0\<rparr> \<and>
   (\<exists>out'. kernel_call Int16 UInt8 [Some (I16 50), Some (I16 (- 5))] \<lparr>vx = 2, vy = 1, vz = 1\<rparr> (Fin 10) [None, None] = Some out' \<and>
       out' ! 1 = Some (U8 0))"
proof -
  have ok: "volume_ok \<lparr>vx = 2, vy = 1, vz = 1\<rparr> [Some (I16 50), Some (I16 (- 5))]"
    by (simp add: volume_ok_def)
  have len: "length [None :: cell, None] = vx \<lparr>vx = 2, vy = 1, vz = 1\<rparr> * vy \<lparr>vx = 2, vy = 1, vz = 1\<rparr> * vz \<lparr>vx = 2, vy = 1, vz = 1\<rparr>"
    by simp
  have p: "inside \<lparr>vx = 2, vy = 1, vz = 1\<rparr> \<lparr>vx = 1, vy = 0, vz = 0\<rparr>"
    by (simp add: inside_def)
  have i: "Buffer3_index \<lparr>vx = 2, vy = 1, vz = 1\<rparr> \<lparr>vx = 1, vy = 0, vz = 0\<rparr> = 1"
    by (simp add: Buffer3_index_def wrap64_def)
  from kernel_thresholds_voxel [OF ok len p, of Int16 UInt8 "Fin 10"]
  obtain out' s where
      k: "kernel_call Int16 UInt8 [Some (I16 50), Some (I16 (- 5))] \<lparr>vx = 2, vy = 1, vz = 1\<rparr> (Fin 10) [None, None] = Some out'"
    and s: "[Some (I16 50), Some (I16 (- 5))] ! Buffer3_index \<lparr>vx = 2, vy = 1, vz = 1\<rparr> \<lparr>vx = 1, vy = 0, vz = 0\<rparr> = Some s"
    and z: "lt_WorkType (abs_WorkType (to_WorkType s)) (Fin 10) \<longrightarrow>
              out' ! Buffer3_index \<lparr>vx = 2, vy = 1, vz = 1\<rparr> \<lparr>vx = 1, vy = 0, vz = 0\<rparr> = Some (zero_sample UInt8)"
    by blast
  from s have "s = I16 (- 5)"
    unfolding i by simp
  with z have "out' ! 1 = Some (U8 0)"
    unfolding i by (simp add: lt_WorkType_def)
  with k have "\<exists>out'. kernel_call Int16 UInt8 [Some (I16 50), Some (I16 (- 5))] \<lparr>vx = 2, vy = 1, vz = 1\<rparr> (Fin 10) [None, None] = Some out' \<and>
       out' ! 1 = Some (U8 0)"
    by blast
  with ok len p show ?thesis
    by blast
qed

text \<open>
  C2. The comparison is inclusive: a voxel whose magnitude equals the threshold is passed
  through, its output is the saturating cast of its input.
\<close>

theorem threshold_comparison_inclusive:
  assumes "volume_ok sz inputImage"
      and "length outputImage = vx sz * vy sz * vz sz"
      and "inside sz p"
      and "inputImage ! Buffer3_index sz p = Some s"
      and "eq_WorkType (abs_WorkType (to_WorkType s)) threshold"
  shows "\<exists>out'. kernel_call InputType OutputType inputImage sz threshold outputImage = Some out' \<and>
           out' ! Buffer3_index sz p = clampCast OutputType (to_WorkType s) \<and>
           out' ! Buffer3_index sz p \<noteq> None"
proof -
  have "threshold_value threshold (to_WorkType s) = to_WorkType s"
    using eq_ge [OF assms(5)] by (simp add: threshold_value_def)
  with kernel_call_sample [OF assms(1-4), where InputType = InputType
      and OutputType = OutputType and threshold = threshold]
  show ?thesis by simp
qed

theorem threshold_comparison_inclusive_witness:
  "volume_ok \<lparr>vx = 1, vy = 1, vz = 1\<rparr> [Some (I16 (- 10))] \<and>
   inside \<lparr>vx = 1, vy = 1, vz = 1\<rparr> \<lparr>vx = 0, vy = 0, vz = 0\<rparr> \<and>
   eq_WorkType (abs_WorkType (to_WorkType (I16 (- 10)))) (Fin 10) \<and>
   (\<exists>out'. kernel_call Int16 Int16 [Some (I16 (- 10))] \<lparr>vx = 1, vy = 1, vz = 1\<rparr> (Fin 10) [None] = Some out' \<and>
      out' ! 0 = Some (I16 (- 10)))"
proof -
  have e: "eq_WorkType (abs_WorkType (to_WorkType (I16 (- 10)))) (Fin 10)"
    by (simp add: eq_WorkType_def)
  have c: "clampCast Int16 (to_WorkType (I16 (- 10))) = Some (I16 (- 10))"
    by (simp add: clamp_def trunc_toward_zero_def)
  have "\<exists>out'. kernel_call Int16 Int16 [Some (I16 (- 10))] \<lparr>vx = 1, vy = 1, vz = 1\<rparr> (Fin 10) [None] = Some out' \<and>
      out' ! Buffer3_index \<lparr>vx = 1, vy = 1, vz = 1\<rparr> \<lparr>vx = 0, vy = 0, vz = 0\<rparr>
        = clampCast Int16 (to_WorkType (I16 (- 10))) \<and>
      out' ! Buffer3_index \<lparr>vx = 1, vy = 1, vz = 1\<rparr> \<lparr>vx = 0, vy = 0, vz = 0\<rparr> \<noteq> None"
    by (rule threshold_comparison_inclusive [OF unit_volume_ok _ unit_inside _ e])
      (simp_all add: index_000)
  then have "\<exists>out'. kernel_call Int16 Int16 [Some (I16 (- 10))] \<lparr>vx = 1, vy = 1, vz = 1\<rparr> (Fin 10) [None] = Some out' \<and>
      out' ! 0 = Some (I16 (- 10))"
    unfolding index_000 c by blast
  with e unit_volume_ok unit_inside show ?thesis
    by blast
qed

text \<open>
  C3. The cast saturates: a sample that passes the threshold and lies above the range of
  the output type is written as the largest value of the output type. The example of the
  claim, 1000.0 to 8-bit unsigned at threshold 0, gives 255.
\<close>

theorem cast_saturates_at_maximum:
  assumes "volume_ok sz inputImage"
      and "length outputImage = vx sz * vy sz * vz sz"
      and "inside sz p"
      and "inputImage ! Buffer3_index sz p = Some s"
      and "ge_WorkType (abs_WorkType (to_WorkType s)) threshold"
      and "lt_WorkType (Fin (limit_max OutputType)) (to_WorkType s)"
  shows "clampCast OutputType (to_WorkType s) = Some (max_sample OutputType) \<and>
         (\<exists>out'. kernel_call InputType OutputType inputImage sz threshold outputImage = Some out' \<and>
            out' ! Buffer3_index sz p = Some (max_sample OutputType))"
proof -
  have "threshold_value threshold (to_WorkType s) = to_WorkType s"
    using assms(5) by (simp add: threshold_value_def)
  with kernel_call_sample [OF assms(1-4), where InputType = InputType
      and OutputType = OutputType and threshold = threshold]
    clampCast_above [OF assms(6)]
  show ?thesis by auto
qed

theorem cast_saturates_at_maximum_witness:
  "volume_ok \<lparr>vx = 1, vy = 1, vz = 1\<rparr> [Some (F32 (Fin 1000))] \<and>
   inside \<lparr>vx = 1, vy = 1, vz = 1\<rparr> \<lparr>vx = 0, vy = 0, vz = 0\<rparr> \<and>
   ge_WorkType (abs_WorkType (to_WorkType (F32 (Fin 1000)))) (Fin 0) \<and>
   lt_WorkType (Fin (limit_max UInt8)) (to_WorkType (F32 (Fin 1000))) \<and>
   clampCast UInt8 (Fin 1000) = Some (U8 255) \<and>
   (\<exists>out'. kernel_call Float32 UInt8 [Some (F32 (Fin 1000))] \<lparr>vx = 1, vy = 1, vz = 1\<rparr> (Fin 0) [None] = Some out' \<and>
      out' ! 0 = Some (U8 255))"
proof -
  have g: "ge_WorkType (abs_WorkType (to_WorkType (F32 (Fin 1000)))) (Fin 0)"
    by (simp add: ge_WorkType_def)
  have l: "lt_WorkType (Fin (limit_max UInt8)) (to_WorkType (F32 (Fin 1000)))"
    by (simp add: lt_WorkType_def)
  have "clampCast UInt8 (to_WorkType (F32 (Fin 1000))) = Some (max_sample UInt8) \<and>
    (\<exists>out'. kernel_call Float32 UInt8 [Some (F32 (Fin 1000))] \<lparr>vx = 1, vy = 1, vz = 1\<rparr> (Fin 0) [None] = Some out' \<and>
      out' ! Buffer3_index \<lparr>vx = 1, vy = 1, vz = 1\<rparr> \<lparr>vx = 0, vy = 0, vz = 0\<rparr> = Some (max_sample UInt8))"
    by (rule cast_saturates_at_maximum [OF unit_volume_ok _ unit_inside _ g l])
      (simp_all add: index_000)
  then have "clampCast UInt8 (Fin 1000) = Some (U8 255) \<and>
    (\<exists>out'. kernel_call Float32 UInt8 [Some (F32 (Fin 1000))] \<lparr>vx = 1, vy = 1, vz = 1\<rparr> (Fin 0) [None] = Some out' \<and>
      out' ! 0 = Some (U8 255))"
    unfolding index_000 to_WorkType.simps max_sample.simps .
  with g l unit_volume_ok unit_inside show ?thesis
    by blast
qed



text \<open>
  C5. The driver copies the input to the accelerator if and only if it is neither
  accelerator-resident nor dual-resident, that is host-resident; otherwise it uses the
  input as it is and makes no copy. No container that was in the store, the input among
  them, is changed by the stage.
\<close>

theorem input_migrated_iff_host_only:
  assumes "imageData < length mem"
  shows "((\<not> isGPU (mem ! imageData) \<and> \<not> isBoth (mem ! imageData)) \<longleftrightarrow>
            location (mem ! imageData) = LocationHost) \<and>
         (\<not> isGPU (mem ! imageData) \<and> \<not> isBoth (mem ! imageData) \<longrightarrow>
            inImageData_of mem imageData =
              (length mem, mem @ [\<lparr>location = LocationGpu, stream = stream (mem ! imageData),
                                    elements = elements (mem ! imageData)\<rparr>])) \<and>
         (isGPU (mem ! imageData) \<or> isBoth (mem ! imageData) \<longrightarrow>
            inImageData_of mem imageData = (imageData, mem)) \<and>
         (fst (inImageData_of mem imageData) \<noteq> imageData \<longleftrightarrow>
            \<not> isGPU (mem ! imageData) \<and> \<not> isBoth (mem ! imageData)) \<and>
         (\<forall>out mem'. process narrow InputType OutputType mem imageData sz threshold = Some (out, mem') \<longrightarrow>
            take (length mem) mem' = mem \<and>
            length mem' = length mem +
              (if \<not> isGPU (mem ! imageData) \<and> \<not> isBoth (mem ! imageData) then 2 else 1)) \<and>
         (volume_ok sz (elements (mem ! imageData)) \<longrightarrow>
            (\<exists>out mem'. process narrow InputType OutputType mem imageData sz threshold = Some (out, mem')))"
proof -
  have 1: "(\<not> isGPU (mem ! imageData) \<and> \<not> isBoth (mem ! imageData)) \<longleftrightarrow>
             location (mem ! imageData) = LocationHost"
    by (cases "location (mem ! imageData)") (simp_all add: isGPU_def isBoth_def)
  have 3: "fst (inImageData_of mem imageData) \<noteq> imageData \<longleftrightarrow>
             location (mem ! imageData) = LocationHost"
    using assms
    by (cases "location (mem ! imageData) = LocationHost")
      (simp_all add: inImageData_of_host inImageData_of_device)
  have 4: "take (length mem) mem' = mem \<and>
           length mem' = length mem + (if location (mem ! imageData) = LocationHost then 2 else 1)"
    if "process narrow InputType OutputType mem imageData sz threshold = Some (out, mem')"
    for out mem'
  proof -
    let ?m = "snd (inImageData_of mem imageData)"
    from process_Some [OF that]
    have a: "length mem' = Suc (length ?m)" and b: "take (length ?m) mem' = ?m"
      by simp_all
    have "take (length mem) (take (length ?m) mem') = take (length mem) ?m"
      by (simp only: b)
    moreover have "length mem \<le> length ?m"
      by (simp add: inImageData_of_same(5) [OF assms])
    ultimately have "take (length mem) mem' = take (length mem) ?m"
      by (simp add: min_def)
    then show ?thesis
      using a by (simp add: inImageData_of_same(4,5) [OF assms])
  qed
  have 5: "\<exists>out mem'. process narrow InputType OutputType mem imageData sz threshold = Some (out, mem')"
    if "volume_ok sz (elements (mem ! imageData))"
    using process_result [OF assms that, where narrow = narrow and threshold = threshold
        and InputType = InputType and OutputType = OutputType]
    by blast
  have 2: "inImageData_of mem imageData =
              (length mem, mem @ [\<lparr>location = LocationGpu, stream = stream (mem ! imageData),
                                    elements = elements (mem ! imageData)\<rparr>])"
    if "location (mem ! imageData) = LocationHost"
    using that by (rule inImageData_of_host)
  have 6: "inImageData_of mem imageData = (imageData, mem)"
    if "location (mem ! imageData) \<noteq> LocationHost"
    using that by (rule inImageData_of_device)
  have 7: "isGPU (mem ! imageData) \<or> isBoth (mem ! imageData) \<longleftrightarrow>
             location (mem ! imageData) \<noteq> LocationHost"
    using 1 by blast
  from 2 6 3 4 5 show ?thesis
    unfolding 7 1 by blast
qed

theorem input_migrated_iff_host_only_witness:
  "0 < length host_volume \<and> 0 < length device_volume \<and>
   inImageData_of host_volume 0 =
     (1, host_volume @ [\<lparr>location = LocationGpu, stream = 7,
                          elements = [Some (I16 50), Some (I16 (- 5))]\<rparr>]) \<and>
   inImageData_of device_volume 0 = (0, device_volume) \<and>
   (\<exists>out mem'. process Fin Int16 UInt8 host_volume 0 \<lparr>vx = 2, vy = 1, vz = 1\<rparr> 10 = Some (out, mem') \<and>
      take 1 mem' = host_volume \<and> length mem' = 3) \<and>
   (\<exists>out mem'. process Fin Int16 UInt8 device_volume 0 \<lparr>vx = 2, vy = 1, vz = 1\<rparr> 10 = Some (out, mem') \<and>
      take 1 mem' = device_volume \<and> length mem' = 2)"
proof -
  have h: "0 < length host_volume" and d: "0 < length device_volume"
    by (simp_all add: host_volume_def device_volume_def)
  note H = input_migrated_iff_host_only [OF h, where narrow = Fin and InputType = Int16
      and OutputType = UInt8 and sz = "\<lparr>vx = 2, vy = 1, vz = 1\<rparr>" and threshold = 10]
  note D = input_migrated_iff_host_only [OF d, where narrow = Fin and InputType = Int16
      and OutputType = UInt8 and sz = "\<lparr>vx = 2, vy = 1, vz = 1\<rparr>" and threshold = 10]
  have 1: "inImageData_of host_volume 0 =
     (1, host_volume @ [\<lparr>location = LocationGpu, stream = 7,
                          elements = [Some (I16 50), Some (I16 (- 5))]\<rparr>])"
    using H by (simp add: host_volume_def isGPU_def isBoth_def)
  have 2: "inImageData_of device_volume 0 = (0, device_volume)"
    using D by (simp add: device_volume_def isGPU_def isBoth_def)
  have 3: "\<exists>out mem'. process Fin Int16 UInt8 host_volume 0 \<lparr>vx = 2, vy = 1, vz = 1\<rparr> 10 = Some (out, mem') \<and>
      take 1 mem' = host_volume \<and> length mem' = 3"
    using H host_volume_ok by (auto simp: host_volume_def isGPU_def isBoth_def)
  have 4: "\<exists>out mem'. process Fin Int16 UInt8 device_volume 0 \<lparr>vx = 2, vy = 1, vz = 1\<rparr> 10 = Some (out, mem') \<and>
      take 1 mem' = device_volume \<and> length mem' = 2"
    using D device_volume_ok by (auto simp: device_volume_def isGPU_def isBoth_def)
  from h d 1 2 3 4 show ?thesis
    by blast
qed

text \<open>
  C6. The output container has width * height * depth elements, as many as the input, on
  the accelerator, and is bound to the stream of the input container that the kernel reads
  (the copy, if one was made).
\<close>

theorem output_container_shape:
  assumes "imageData < length mem"
      and "volume_ok sz (elements (mem ! imageData))"
  shows "\<exists>out mem'.
           process narrow InputType OutputType mem imageData sz threshold = Some (out, mem') \<and>
           out < length mem' \<and>
           length (elements (mem' ! out)) = vx sz * vy sz * vz sz \<and>
           length (elements (mem' ! out)) = length (elements (mem ! imageData)) \<and>
           stream (mem' ! out) =
             getStream (snd (inImageData_of mem imageData) ! fst (inImageData_of mem imageData)) \<and>
           location (mem' ! out) = LocationGpu"
proof -
  let ?m = "snd (inImageData_of mem imageData)"
  let ?c = "\<lparr>location = LocationGpu, stream = stream (mem ! imageData),
             elements = map (filtered OutputType (narrow threshold)) (elements (mem ! imageData))\<rparr>"
  have p: "process narrow InputType OutputType mem imageData sz threshold = Some (length ?m, ?m @ [?c])"
    by (rule process_result [OF assms])
  have len: "length (elements (mem ! imageData)) = vx sz * vy sz * vz sz"
    using assms(2) by (simp add: volume_ok_def)
  have "length ?m < length (?m @ [?c])"
    and "length (elements ((?m @ [?c]) ! length ?m)) = vx sz * vy sz * vz sz"
    and "length (elements ((?m @ [?c]) ! length ?m)) = length (elements (mem ! imageData))"
    and "stream ((?m @ [?c]) ! length ?m) = getStream (?m ! fst (inImageData_of mem imageData))"
    and "location ((?m @ [?c]) ! length ?m) = LocationGpu"
    by (simp_all add: len getStream_def inImageData_of_same(3) [OF assms(1)])
  with p show ?thesis
    by blast
qed

theorem output_container_shape_witness:
  "0 < length host_volume \<and> volume_ok \<lparr>vx = 2, vy = 1, vz = 1\<rparr> (elements (host_volume ! 0)) \<and>
   (\<exists>out mem'. process Fin Int16 UInt8 host_volume 0 \<lparr>vx = 2, vy = 1, vz = 1\<rparr> 10 = Some (out, mem') \<and>
      out < length mem' \<and> length (elements (mem' ! out)) = 2 \<and> stream (mem' ! out) = 7 \<and>
      location (mem' ! out) = LocationGpu)"
proof -
  have h: "0 < length host_volume"
    by (simp add: host_volume_def)
  have s: "getStream (snd (inImageData_of host_volume 0) ! fst (inImageData_of host_volume 0)) = 7"
    by (simp add: inImageData_of_host host_volume_def getStream_def)
  from output_container_shape [OF h host_volume_ok, where narrow = Fin and InputType = Int16
      and OutputType = UInt8 and threshold = 10]
  have "\<exists>out mem'. process Fin Int16 UInt8 host_volume 0 \<lparr>vx = 2, vy = 1, vz = 1\<rparr> 10 = Some (out, mem') \<and>
      out < length mem' \<and> length (elements (mem' ! out)) = 2 \<and> stream (mem' ! out) = 7 \<and>
      location (mem' ! out) = LocationGpu"
    unfolding s by (auto simp: host_volume_def)
  with h host_volume_ok show ?thesis
    by blast
qed



text \<open>
  C8. A voxel whose magnitude is at least the threshold is written as the saturating cast
  of its input; and with the same sample type on both sides and threshold 0, a second run of
  the stage on the output of the first gives the output of the first.
\<close>

theorem pass_through_idempotent:
  assumes "imageData < length mem"
      and "volume_ok sz (elements (mem ! imageData))"
  shows "\<exists>out1 mem1.
           process narrow T T mem imageData sz threshold = Some (out1, mem1) \<and>
           (\<forall>p s. inside sz p \<longrightarrow> elements (mem ! imageData) ! Buffer3_index sz p = Some s \<longrightarrow>
                  ge_WorkType (abs_WorkType (to_WorkType s)) (narrow threshold) \<longrightarrow>
                  elements (mem1 ! out1) ! Buffer3_index sz p = clampCast T (to_WorkType s)) \<and>
           (narrow threshold = Fin 0 \<longrightarrow>
              (\<exists>out2 mem2. process narrow T T mem1 out1 sz threshold = Some (out2, mem2) \<and>
                 elements (mem2 ! out2) = elements (mem1 ! out1)))"
proof -
  let ?in = "elements (mem ! imageData)"
  let ?m = "snd (inImageData_of mem imageData)"
  let ?c = "\<lparr>location = LocationGpu, stream = stream (mem ! imageData),
             elements = map (filtered T (narrow threshold)) ?in\<rparr>"
  let ?mem1 = "?m @ [?c]"
  have run1: "process narrow T T mem imageData sz threshold = Some (length ?m, ?mem1)"
    by (rule process_result [OF assms])
  have len: "length ?in = vx sz * vy sz * vz sz"
    using assms(2) by (simp add: volume_ok_def)
  have out1: "elements (?mem1 ! length ?m) = map (filtered T (narrow threshold)) ?in"
    by simp
  have pass: "elements (?mem1 ! length ?m) ! Buffer3_index sz p = clampCast T (to_WorkType s)"
    if "inside sz p" and "?in ! Buffer3_index sz p = Some s"
      and "ge_WorkType (abs_WorkType (to_WorkType s)) (narrow threshold)" for p s
  proof -
    have "Buffer3_index sz p < length ?in"
      using Buffer3_index_less [OF that(1)] len by simp
    then have "elements (?mem1 ! length ?m) ! Buffer3_index sz p
                 = filtered T (narrow threshold) (Some s)"
      by (simp add: that(2))
    then show ?thesis
      using that(3) by (simp add: filtered_Some)
  qed
  have twice: "\<exists>out2 mem2. process narrow T T ?mem1 (length ?m) sz threshold = Some (out2, mem2) \<and>
                 elements (mem2 ! out2) = elements (?mem1 ! length ?m)"
    if zero: "narrow threshold = Fin 0"
  proof -
    have ptr: "length ?m < length ?mem1"
      by simp
    have ok: "volume_ok sz (elements (?mem1 ! length ?m))"
      unfolding out1 by (rule volume_ok_filtered [OF assms(2)])
    let ?m' = "snd (inImageData_of ?mem1 (length ?m))"
    let ?c' = "\<lparr>location = LocationGpu, stream = stream (?mem1 ! length ?m),
                 elements = map (filtered T (narrow threshold)) (elements (?mem1 ! length ?m))\<rparr>"
    have run2: "process narrow T T ?mem1 (length ?m) sz threshold = Some (length ?m', ?m' @ [?c'])"
      by (rule process_result [OF ptr ok])
    have "elements ((?m' @ [?c']) ! length ?m')
            = map (filtered T (narrow threshold)) (elements (?mem1 ! length ?m))"
      by simp
    also have "\<dots> = map (filtered T (Fin 0)) (map (filtered T (Fin 0)) ?in)"
      by (simp add: zero)
    also have "\<dots> = map (filtered T (Fin 0)) ?in"
      by (simp add: filtered_idem)
    also have "\<dots> = elements (?mem1 ! length ?m)"
      by (simp add: zero)
    finally show ?thesis
      using run2 by blast
  qed
  from run1 pass twice show ?thesis
    by blast
qed

theorem pass_through_idempotent_witness:
  "0 < length host_volume \<and> volume_ok \<lparr>vx = 2, vy = 1, vz = 1\<rparr> (elements (host_volume ! 0)) \<and>
   (\<exists>out1 mem1 out2 mem2.
      process Fin Int16 Int16 host_volume 0 \<lparr>vx = 2, vy = 1, vz = 1\<rparr> 0 = Some (out1, mem1) \<and>
      elements (mem1 ! out1) ! 1 = Some (I16 (- 5)) \<and>
      process Fin Int16 Int16 mem1 out1 \<lparr>vx = 2, vy = 1, vz = 1\<rparr> 0 = Some (out2, mem2) \<and>
      elements (mem2 ! out2) = elements (mem1 ! out1))"
proof -
  have h: "0 < length host_volume"
    by (simp add: host_volume_def)
  have i: "Buffer3_index \<lparr>vx = 2, vy = 1, vz = 1\<rparr> \<lparr>vx = 1, vy = 0, vz = 0\<rparr> = 1"
    by (simp add: Buffer3_index_def wrap64_def)
  have p: "inside \<lparr>vx = 2, vy = 1, vz = 1\<rparr> \<lparr>vx = 1, vy = 0, vz = 0\<rparr>"
    by (simp add: inside_def)
  have s: "elements (host_volume ! 0) ! 1 = Some (I16 (- 5))"
    by (simp add: host_volume_def)
  have g: "ge_WorkType (abs_WorkType (to_WorkType (I16 (- 5)))) (Fin 0)"
    by (simp add: ge_WorkType_def)
  have c: "clampCast Int16 (to_WorkType (I16 (- 5))) = Some (I16 (- 5))"
    by (simp add: clamp_def trunc_toward_zero_def)
  from pass_through_idempotent [OF h host_volume_ok, where narrow = Fin and T = Int16 and threshold = 0]
  obtain out1 mem1 where
      1: "process Fin Int16 Int16 host_volume 0 \<lparr>vx = 2, vy = 1, vz = 1\<rparr> 0 = Some (out1, mem1)"
    and 2: "\<forall>p s. inside \<lparr>vx = 2, vy = 1, vz = 1\<rparr> p \<longrightarrow>
              elements (host_volume ! 0) ! Buffer3_index \<lparr>vx = 2, vy = 1, vz = 1\<rparr> p = Some s \<longrightarrow>
              ge_WorkType (abs_WorkType (to_WorkType s)) (Fin 0) \<longrightarrow>
              elements (mem1 ! out1) ! Buffer3_index \<lparr>vx = 2, vy = 1, vz = 1\<rparr> p = clampCast Int16 (to_WorkType s)"
    and 3: "Fin 0 = Fin 0 \<longrightarrow>
              (\<exists>out2 mem2. process Fin Int16 Int16 mem1 out1 \<lparr>vx = 2, vy = 1, vz = 1\<rparr> 0 = Some (out2, mem2) \<and>
                 elements (mem2 ! out2) = elements (mem1 ! out1))"
    by blast
  from 2 have "inside \<lparr>vx = 2, vy = 1, vz = 1\<rparr> \<lparr>vx = 1, vy = 0, vz = 0\<rparr> \<longrightarrow>
      elements (host_volume ! 0) ! Buffer3_index \<lparr>vx = 2, vy = 1, vz = 1\<rparr> \<lparr>vx = 1, vy = 0, vz = 0\<rparr>
        = Some (I16 (- 5)) \<longrightarrow>
      ge_WorkType (abs_WorkType (to_WorkType (I16 (- 5)))) (Fin 0) \<longrightarrow>
      elements (mem1 ! out1) ! Buffer3_index \<lparr>vx = 2, vy = 1, vz = 1\<rparr> \<lparr>vx = 1, vy = 0, vz = 0\<rparr>
        = clampCast Int16 (to_WorkType (I16 (- 5)))"
    by blast
  then have "elements (mem1 ! out1) ! 1 = Some (I16 (- 5))"
    unfolding i c using p s g by blast
  with 1 3 h host_volume_ok show ?thesis
    by blast
qed

text \<open>
  C9. A thread whose coordinates are outside the volume returns the output as it is,
  whatever the accessor holds. The cooperative copy of a block, a partial tile included,
  succeeds on an input of width * height * depth cells: it fills the scratch cells whose
  position is inside the volume and leaves the others, and every read inside the volume
  gets the input cell. A launch of any geometry with enough shared memory has no fault.
\<close>

theorem accesses_bounds_guarded:
  "(\<not> inside sz (thread_position blockDim blockIdx threadIdx) \<longrightarrow>
      processKernel OutputType blockDim blockIdx threadIdx cb sz threshold outputImage
        = Some outputImage) \<and>
   (length inputImage = vx sz * vy sz * vz sz \<longrightarrow>
    dx blockDim * dy blockDim * dz blockDim \<le> length smem \<longrightarrow>
      (\<exists>cb'. inputBuffer_of inputImage sz smem blockDim blockIdx = Some cb' \<and>
         length (m_sharedBuffer cb') = length smem \<and>
         (\<forall>j<length smem. m_sharedBuffer cb' ! j =
            (if j < dx blockDim * dy blockDim * dz blockDim \<and>
                inside sz (offset_by (tile_origin blockDim blockIdx)
                             (tile_position (tile_extent blockDim) j))
             then inputImage ! Buffer3_index sz
                    (offset_by (tile_origin blockDim blockIdx)
                       (tile_position (tile_extent blockDim) j))
             else smem ! j)) \<and>
         (\<forall>p. inside sz p \<longrightarrow> CachedBuffer3_get cb' p = Some (inputImage ! Buffer3_index sz p)))) \<and>
   (length inputImage = vx sz * vy sz * vz sz \<longrightarrow> None \<notin> set inputImage \<longrightarrow>
    length outputImage = vx sz * vy sz * vz sz \<longrightarrow>
    dx blockDim * dy blockDim * dz blockDim \<le> smemSize div sizeof InputType \<longrightarrow>
      launch InputType OutputType gridDim blockDim smemSize inputImage sz threshold outputImage
        \<noteq> None)"
proof -
  have 3: "launch InputType OutputType gridDim blockDim smemSize inputImage sz threshold outputImage
        \<noteq> None"
    if "length inputImage = vx sz * vy sz * vz sz" and "None \<notin> set inputImage"
      and "length outputImage = vx sz * vy sz * vz sz"
      and "dx blockDim * dy blockDim * dz blockDim \<le> smemSize div sizeof InputType"
    using launch_pointwise [OF that(1,2,4,3), where OutputType = OutputType
        and gridDim = gridDim and threshold = threshold]
    by auto
  show ?thesis
    using 3 by (simp add: processKernel_outside inputBuffer_of_result)
qed

theorem accesses_bounds_guarded_witness:
  "\<not> inside \<lparr>vx = 2, vy = 1, vz = 1\<rparr> (thread_position blockSize \<lparr>dx = 0, dy = 0, dz = 0\<rparr> \<lparr>dx = 5, dy = 0, dz = 0\<rparr>) \<and>
   processKernel UInt8 blockSize \<lparr>dx = 0, dy = 0, dz = 0\<rparr> \<lparr>dx = 5, dy = 0, dz = 0\<rparr>
       \<lparr>m_buffer = [], m_size = \<lparr>vx = 2, vy = 1, vz = 1\<rparr>, m_sharedBuffer = [],
        m_sharedSize = tile_extent blockSize, m_sharedOffset = tile_origin blockSize \<lparr>dx = 0, dy = 0, dz = 0\<rparr>\<rparr>
       \<lparr>vx = 2, vy = 1, vz = 1\<rparr> (Fin 10) [None, None]
     = Some [None, None] \<and>
   (\<exists>cb'. inputBuffer_of [Some (I16 50), Some (I16 (- 5))] \<lparr>vx = 2, vy = 1, vz = 1\<rparr>
             (replicate 128 None) blockSize \<lparr>dx = 0, dy = 0, dz = 0\<rparr> = Some cb' \<and>
      m_sharedBuffer cb' ! 1 = Some (I16 (- 5)) \<and> m_sharedBuffer cb' ! 2 = None \<and>
      CachedBuffer3_get cb' \<lparr>vx = 1, vy = 0, vz = 0\<rparr> = Some (Some (I16 (- 5)))) \<and>
   launch Int16 UInt8 (gridSize \<lparr>vx = 2, vy = 1, vz = 1\<rparr>) blockSize (sharedMemorySize Int16)
       [Some (I16 50), Some (I16 (- 5))] \<lparr>vx = 2, vy = 1, vz = 1\<rparr> (Fin 10) [None, None] \<noteq> None"
proof -
  let ?sz = "\<lparr>vx = 2, vy = 1, vz = 1\<rparr>"
  let ?b = "\<lparr>dx = 0, dy = 0, dz = 0\<rparr>"
  let ?t = "\<lparr>dx = 5, dy = 0, dz = 0\<rparr>"
  let ?in = "[Some (I16 50), Some (I16 (- 5))]"
  let ?cb = "\<lparr>m_buffer = [], m_size = ?sz, m_sharedBuffer = [],
        m_sharedSize = tile_extent blockSize, m_sharedOffset = tile_origin blockSize ?b\<rparr>"
  note T = accesses_bounds_guarded [where sz = ?sz and blockDim = blockSize and blockIdx = ?b
      and threadIdx = ?t and OutputType = UInt8 and cb = ?cb and threshold = "Fin 10"
      and outputImage = "[None, None]" and inputImage = ?in and smem = "replicate 128 None"
      and smemSize = "sharedMemorySize Int16" and InputType = Int16
      and gridDim = "gridSize ?sz"]
  have out: "\<not> inside ?sz (thread_position blockSize ?b ?t)"
    by (simp add: inside_def thread_position_def blockSize_def wrap32_def)
  have len: "length ?in = vx ?sz * vy ?sz * vz ?sz"
    by simp
  have fits: "dx blockSize * dy blockSize * dz blockSize \<le> length (replicate 128 None)"
    by (simp add: blockSize_def)
  have init: "None \<notin> set ?in"
    by simp
  have olen: "length [None :: cell, None] = vx ?sz * vy ?sz * vz ?sz"
    by simp
  have 1: "processKernel UInt8 blockSize ?b ?t ?cb ?sz (Fin 10) [None, None] = Some [None, None]"
    using T out by blast
  from T len fits obtain cb' where
      a: "inputBuffer_of ?in ?sz (replicate 128 None) blockSize ?b = Some cb'"
    and b: "\<forall>j<length (replicate 128 None :: buffer). m_sharedBuffer cb' ! j =
            (if j < dx blockSize * dy blockSize * dz blockSize \<and>
                inside ?sz (offset_by (tile_origin blockSize ?b) (tile_position (tile_extent blockSize) j))
             then ?in ! Buffer3_index ?sz
                    (offset_by (tile_origin blockSize ?b) (tile_position (tile_extent blockSize) j))
             else replicate 128 None ! j)"
    and c: "\<forall>p. inside ?sz p \<longrightarrow> CachedBuffer3_get cb' p = Some (?in ! Buffer3_index ?sz p)"
    by blast
  have s1: "m_sharedBuffer cb' ! 1 = Some (I16 (- 5))"
    using b [rule_format, of 1]
    by (simp add: blockSize_def tile_origin_def tile_extent_def tile_position_def offset_by_def
          inside_def wrap32_def wrap64_def Buffer3_index_def)
  have s2: "m_sharedBuffer cb' ! 2 = None"
    using b [rule_format, of 2]
    by (simp add: blockSize_def tile_origin_def tile_extent_def tile_position_def offset_by_def
          inside_def wrap32_def wrap64_def Buffer3_index_def)
  have g: "CachedBuffer3_get cb' \<lparr>vx = 1, vy = 0, vz = 0\<rparr> = Some (Some (I16 (- 5)))"
    using c [rule_format, of "\<lparr>vx = 1, vy = 0, vz = 0\<rparr>"]
    by (simp add: inside_def Buffer3_index_def wrap64_def)
  have 3: "launch Int16 UInt8 (gridSize ?sz) blockSize (sharedMemorySize Int16) ?in ?sz (Fin 10)
             [None, None] \<noteq> None"
    using T len init olen sharedMemorySize_fits [of Int16] by blast
  from out 1 a s1 s2 g 3 show ?thesis
    by blast
qed

text \<open>
  C10. With a threshold of at most zero, every voxel whose input is not NaN passes the
  comparison and is written as the saturating cast of its input; on an input without NaN
  the output is the element-wise saturating cast of the input.
\<close>

theorem nonpositive_threshold_is_cast:
  assumes "volume_ok sz inputImage"
      and "length outputImage = vx sz * vy sz * vz sz"
      and "ge_WorkType (Fin 0) threshold"
  shows "\<exists>out'.
           kernel_call InputType OutputType inputImage sz threshold outputImage = Some out' \<and>
           (\<forall>p s. inside sz p \<longrightarrow> inputImage ! Buffer3_index sz p = Some s \<longrightarrow>
                  \<not> is_NaN (to_WorkType s) \<longrightarrow>
                  ge_WorkType (abs_WorkType (to_WorkType s)) threshold \<and>
                  out' ! Buffer3_index sz p = clampCast OutputType (to_WorkType s)) \<and>
           ((\<forall>s. Some s \<in> set inputImage \<longrightarrow> \<not> is_NaN (to_WorkType s)) \<longrightarrow>
              out' = map (cast_cell OutputType) inputImage)"
proof -
  let ?out = "map (filtered OutputType threshold) inputImage"
  have run: "kernel_call InputType OutputType inputImage sz threshold outputImage = Some ?out"
    by (rule kernel_call_result [OF assms(1,2)])
  have len: "length inputImage = vx sz * vy sz * vz sz" and init: "None \<notin> set inputImage"
    using assms(1) by (simp_all add: volume_ok_def)
  have voxel: "ge_WorkType (abs_WorkType (to_WorkType s)) threshold \<and>
               ?out ! Buffer3_index sz p = clampCast OutputType (to_WorkType s)"
    if "inside sz p" and "inputImage ! Buffer3_index sz p = Some s" and "\<not> is_NaN (to_WorkType s)"
    for p s
  proof -
    have "Buffer3_index sz p < length inputImage"
      using Buffer3_index_less [OF that(1)] len by simp
    then have "?out ! Buffer3_index sz p = filtered OutputType threshold (Some s)"
      by (simp add: that(2))
    then show ?thesis
      using abs_ge_nonpositive [OF assms(3) that(3)]
      by (simp add: filtered_nonpositive [OF assms(3) that(3)] cast_cell_def)
  qed
  have whole: "?out = map (cast_cell OutputType) inputImage"
    if clean: "\<forall>s. Some s \<in> set inputImage \<longrightarrow> \<not> is_NaN (to_WorkType s)"
  proof (rule map_cong [OF refl])
    fix c assume c: "c \<in> set inputImage"
    have "c \<noteq> None"
    proof
      assume "c = None"
      with c init show False by simp
    qed
    then obtain s where s: "c = Some s"
      by (cases c) simp_all
    with c clean have "\<not> is_NaN (to_WorkType s)"
      by simp
    then show "filtered OutputType threshold c = cast_cell OutputType c"
      unfolding s by (rule filtered_nonpositive [OF assms(3)])
  qed
  from run voxel whole show ?thesis
    by blast
qed

theorem nonpositive_threshold_is_cast_witness:
  "volume_ok \<lparr>vx = 2, vy = 1, vz = 1\<rparr> [Some (I16 50), Some (I16 (- 5))] \<and>
   ge_WorkType (Fin 0) (Fin (- 1)) \<and>
   kernel_call Int16 Float32 [Some (I16 50), Some (I16 (- 5))] \<lparr>vx = 2, vy = 1, vz = 1\<rparr> (Fin (- 1))
       [None, None]
     = Some [Some (F32 (Fin 50)), Some (F32 (Fin (- 5)))]"
proof -
  let ?sz = "\<lparr>vx = 2, vy = 1, vz = 1\<rparr>"
  let ?in = "[Some (I16 50), Some (I16 (- 5))]"
  have ok: "volume_ok ?sz ?in"
    by (simp add: volume_ok_def)
  have len: "length [None :: cell, None] = vx ?sz * vy ?sz * vz ?sz"
    by simp
  have g: "ge_WorkType (Fin 0) (Fin (- 1))"
    by (simp add: ge_WorkType_def)
  have clean: "\<forall>s. Some s \<in> set ?in \<longrightarrow> \<not> is_NaN (to_WorkType s)"
    by (auto simp: is_NaN_def)
  have cast: "map (cast_cell Float32) ?in = [Some (F32 (Fin 50)), Some (F32 (Fin (- 5)))]"
    by (simp add: cast_cell_def clamp_def FLT_MAX_def)
  from nonpositive_threshold_is_cast [OF ok len g, where InputType = Int16 and OutputType = Float32]
    clean
  have "kernel_call Int16 Float32 ?in ?sz (Fin (- 1)) [None, None] = Some (map (cast_cell Float32) ?in)"
    by blast
  with ok g show ?thesis
    unfolding cast by blast
qed

end
